theory Spec2Isabelle
  imports Complex_Main "HOL-Library.Monad_Syntax"
begin

section \<open>The hardware command bridge of Asta\<close>

text \<open>
  The repository holds two copies of the Flask server that relays HTTP requests to two
  serial devices (a robotic hand and an animated face) and a camera:
  \<^item> \<^verbatim>\<open>src/rasbery_h.py\<close>, the Raspberry Pi server; its functions carry the prefix \<open>pi_\<close>;
  \<^item> \<^verbatim>\<open>src/Volt/rasbery_h.py\<close>, the PC server; its functions carry the prefix \<open>volt_\<close>.

  Both files use the same function names, so the prefix is all that is added to them.
  One request is handled at a time: the locks of the source (\<^verbatim>\<open>serial_lock\<close>,
  \<^verbatim>\<open>camera_lock\<close>) and its \<^verbatim>\<open>time.sleep\<close> calls have no counterpart here, and the
  \<^verbatim>\<open>timestamp\<close> field of the replies is left out.
\<close>

subsection \<open>JSON values and request bodies\<close>

text \<open>
  A parsed JSON value. \<open>JFloat\<close> carries the exact value of a finite float;
  \<open>JOther\<close> stands for a list, an object or a non-finite float: \<^verbatim>\<open>int()\<close> raises on all
  of them and none of them has a method \<^verbatim>\<open>lower\<close>.

  \<^verbatim>\<open>int()\<close> on a string and \<^verbatim>\<open>str.lower()\<close> are builtins of Python whose rules range
  over all of Unicode (digits of every script, underscores between digits, a bound on the
  number of digits, case mappings). They are not written out here: a string value
  \<open>JStr s i l\<close> carries, with its text \<open>s\<close>, the result \<open>i\<close> of \<^verbatim>\<open>int(s)\<close> (\<open>None\<close> when it
  raises \<^verbatim>\<open>ValueError\<close>) and the result \<open>l\<close> of \<^verbatim>\<open>s.lower()\<close>. What is proved of every
  JSON value holds whatever the two builtins make of a string.
\<close>

datatype jval = JNull | JBool bool | JInt int | JFloat rat | JStr string "int option" string
  | JOther

text \<open>
  What \<^verbatim>\<open>request.json\<close> gives the handler:
  \<^item> \<open>BodyError\<close>: it raises (no body, malformed JSON, wrong content type);
  \<^item> \<open>BodyFalsy\<close>: a value that is not an object and is false in a condition
    (\<^verbatim>\<open>None\<close>, \<^verbatim>\<open>false\<close>, \<^verbatim>\<open>0\<close>, an empty string or list);
  \<^item> \<open>BodyOther quiet\<close>: a value that is not an object and is true in a condition (a
    number, \<^verbatim>\<open>true\<close>, a string or list that is not empty). It has no method \<^verbatim>\<open>get\<close>.
    \<open>quiet\<close> tells what the tests \<^verbatim>\<open>'eyes' in data\<close> and \<^verbatim>\<open>'mouth' in data\<close> make of it:
    true when both give \<^verbatim>\<open>False\<close> (a string or list that holds neither name), false
    when one of them raises (a number) or gives \<^verbatim>\<open>True\<close>, after which the subscript
    \<^verbatim>\<open>data['eyes']\<close> or \<^verbatim>\<open>data['mouth']\<close> raises;
  \<^item> \<open>BodyDict\<close>: an object, as the list of its items, read with \<open>map_of\<close> (an empty
    object is false in a condition).
\<close>

type_synonym dict = "(string \<times> jval) list"

datatype body = BodyError | BodyFalsy | BodyOther bool | BodyDict dict

subsection \<open>Python's \<^verbatim>\<open>str\<close> and \<^verbatim>\<open>int\<close>\<close>

definition digit_char :: "nat \<Rightarrow> char" where
  "digit_char n = ''0123456789'' ! (n mod 10)"

fun str_nat :: "nat \<Rightarrow> string" where
  "str_nat n = (if n < 10 then [digit_char n] else str_nat (n div 10) @ [digit_char n])"

declare str_nat.simps [simp del]

text \<open>\<^verbatim>\<open>str(i)\<close>, which is also what an f-string makes of an integer.\<close>

definition str_int :: "int \<Rightarrow> string" where
  "str_int i = (if i < 0 then CHR ''-'' # str_nat (nat (- i)) else str_nat (nat i))"

text \<open>
  \<^verbatim>\<open>s.strip()\<close> for a string of ASCII characters, which is all it is applied to (the
  face command built from \<^verbatim>\<open>E\<close>, \<^verbatim>\<open>M\<close>, a blank and decimal numerals): the characters
  dropped at both ends are the blank, the controls 9 to 13 and the separators 28 to 31.
\<close>

definition is_space :: "char \<Rightarrow> bool" where
  "is_space c = (c \<in> set [CHR '' '', CHR 0x09, CHR 0x0A, CHR 0x0B, CHR 0x0C, CHR 0x0D,
                           CHR 0x1C, CHR 0x1D, CHR 0x1E, CHR 0x1F])"

definition strip :: "string \<Rightarrow> string" where
  "strip s = rev (dropWhile is_space (rev (dropWhile is_space s)))"

text \<open>
  \<^verbatim>\<open>int(v)\<close> for a JSON value; \<open>None\<close> is the exception it raises. A float is truncated
  towards zero; for a string the result is the one the value carries.
\<close>

fun py_int :: "jval \<Rightarrow> int option" where
  "py_int (JInt i) = Some i"
| "py_int (JBool b) = Some (if b then 1 else 0)"
| "py_int (JFloat q) = Some (if 0 \<le> q then \<lfloor>q\<rfloor> else \<lceil>q\<rceil>)"
| "py_int (JStr s i l) = i"
| "py_int JNull = None"
| "py_int JOther = None"

text \<open>\<^verbatim>\<open>int(data.get(key, default))\<close>.\<close>

definition get_int :: "dict \<Rightarrow> string \<Rightarrow> int \<Rightarrow> int option" where
  "get_int data key dflt = (case map_of data key of None \<Rightarrow> Some dflt | Some v \<Rightarrow> py_int v)"

text \<open>\<^verbatim>\<open>int(data[key])\<close>, used once the key is known to be present.\<close>

definition item_int :: "dict \<Rightarrow> string \<Rightarrow> int option" where
  "item_int data key = (case map_of data key of None \<Rightarrow> None | Some v \<Rightarrow> py_int v)"

definition endswith_nl :: "string \<Rightarrow> bool" where
  "endswith_nl s = (s \<noteq> [] \<and> last s = CHR 0x0A)"

subsection \<open>Devices, the environment and the server state\<close>

datatype device = Hand | Face

text \<open>
  The module variables \<^verbatim>\<open>hand_arduino\<close> and \<^verbatim>\<open>face_arduino\<close>: \<^verbatim>\<open>None\<close>, a
  \<^verbatim>\<open>Serial\<close> object whose \<^verbatim>\<open>is_open\<close> is false, or one whose \<^verbatim>\<open>is_open\<close> is true.
\<close>

datatype link = NoLink | ClosedPort | OpenPort

text \<open>
  What opening a port does: \<open>Raises\<close> when \<^verbatim>\<open>serial.Serial(...)\<close> raises, \<open>NotOpen\<close>
  when it returns an object that is not open, \<open>IsOpen\<close> when it returns an open one.
\<close>

datatype open_result = Raises | NotOpen | IsOpen

text \<open>
  Everything the server does to a device or to the camera is recorded, in order:
  \<^item> \<open>Close d\<close>: \<^verbatim>\<open>close()\<close> on the port of \<open>d\<close>;
  \<^item> \<open>Connect d r\<close>: one \<^verbatim>\<open>serial.Serial(...)\<close> call for \<open>d\<close>, with its outcome;
  \<^item> \<open>Write d line ok\<close>: one \<^verbatim>\<open>write\<close> of \<open>line\<close> to \<open>d\<close>, followed by \<^verbatim>\<open>flush\<close>; \<open>ok\<close> is
    false when one of the two raises;
  \<^item> \<open>Read d ok\<close>: the test \<^verbatim>\<open>in_waiting > 0\<close> on the port of \<open>d\<close> and, when it holds, the
    \<^verbatim>\<open>readline\<close> after it, which only the PC server performs; \<open>ok\<close> is false when one of
    the two raises. The line read is printed and has no other use;
  \<^item> \<open>Release ok\<close>: \<^verbatim>\<open>camera.release()\<close>, \<open>ok\<close> false when it raises.
\<close>

datatype event = Close device | Connect device open_result | Write device string bool
  | Read device bool | Release bool

text \<open>
  The environment decides the outcome of each operation from the device and from the
  number of operations recorded so far, so it may change between any two operations.
  \<open>serial_write\<close> is false when \<^verbatim>\<open>write\<close> or \<^verbatim>\<open>flush\<close> raises, \<open>serial_read\<close> when
  \<^verbatim>\<open>in_waiting\<close> or \<^verbatim>\<open>readline\<close> raises, \<open>camera_release\<close> when \<^verbatim>\<open>release\<close> raises.
  \<open>fl\<close> is the rounding of a real number to a double (see the section on \<^verbatim>\<open>face_look\<close>).
\<close>

record world =
  serial_open :: "device \<Rightarrow> nat \<Rightarrow> open_result"
  serial_write :: "device \<Rightarrow> nat \<Rightarrow> bool"
  serial_read :: "device \<Rightarrow> nat \<Rightarrow> bool"
  camera_release :: "nat \<Rightarrow> bool"
  fl :: "rat \<Rightarrow> rat"

text \<open>
  The module state. \<open>camera\<close> is the index of the open capture or \<open>None\<close>;
  \<open>latest_frame\<close> is the shared frame slot, a frame being known by its number.
\<close>

record server =
  hand_arduino :: link
  face_arduino :: link
  camera :: "nat option"
  camera_running :: bool
  latest_frame :: "nat option"
  trace :: "event list"

definition link_of :: "device \<Rightarrow> server \<Rightarrow> link" where
  "link_of d s = (case d of Hand \<Rightarrow> hand_arduino s | Face \<Rightarrow> face_arduino s)"

definition set_link :: "device \<Rightarrow> link \<Rightarrow> server \<Rightarrow> server" where
  "set_link d l s = (case d of Hand \<Rightarrow> s\<lparr>hand_arduino := l\<rparr> | Face \<Rightarrow> s\<lparr>face_arduino := l\<rparr>)"

definition record_event :: "event \<Rightarrow> server \<Rightarrow> server" where
  "record_event e s = s\<lparr>trace := trace s @ [e]\<rparr>"

definition now :: "server \<Rightarrow> nat" where
  "now s = length (trace s)"

text \<open>The events a handler added to the trace of the state it started from.\<close>

definition new_events :: "server \<Rightarrow> server \<Rightarrow> event list" where
  "new_events s s' = drop (length (trace s)) (trace s')"



text \<open>The test lines of \<^verbatim>\<open>init_hand_arduino\<close> and \<^verbatim>\<open>init_face_arduino\<close>.\<close>

definition test_command :: "device \<Rightarrow> string" where
  "test_command d = (case d of Hand \<Rightarrow> ''0,0,0,0,180,180,0'' @ [CHR 0x0A]
                             | Face \<Rightarrow> ''E90 M0'' @ [CHR 0x0A])"

subsection \<open>Replies\<close>

text \<open>
  The texts of the \<^verbatim>\<open>message\<close> field, which are Russian sentences in the source:
  \<^item> \<open>MsgNotConnected d\<close>: \<^verbatim>\<open>Arduino Hand/Face\<close> is not connected;
  \<^item> \<open>MsgNotInitialised\<close>: \<^verbatim>\<open>Arduino Face\<close> is not initialised (PC server only);
  \<^item> \<open>MsgNoData\<close>: no data in the request;
  \<^item> \<open>MsgSent\<close>: the command was sent;
  \<^item> \<open>MsgSendError\<close>: send error, followed by the text of the exception;
  \<^item> \<open>MsgException\<close>: the text of the exception caught by the handler;
  \<^item> \<open>MsgNoFaceCommands\<close>: no valid commands for the face;
  \<^item> \<open>MsgUnknownExpression e\<close>: unknown expression \<open>e\<close>;
  \<^item> \<open>MsgCameraStopped\<close>: the camera is stopped.
\<close>

datatype msg = MsgNotConnected device | MsgNotInitialised | MsgNoData | MsgSent | MsgSendError
  | MsgException | MsgNoFaceCommands | MsgUnknownExpression string | MsgCameraStopped

record hand_angles =
  wrist :: int
  f1 :: int
  f2 :: int
  f3 :: int
  f4 :: int
  f5 :: int
  f6 :: int

text \<open>
  A JSON reply with its HTTP code. \<open>angles\<close> is the \<^verbatim>\<open>angles\<close> object of \<^verbatim>\<open>/hand\<close>,
  \<open>look\<close> the \<^verbatim>\<open>angles\<close> object (pan, tilt) of \<^verbatim>\<open>/face_look\<close>, \<open>expression\<close> the
  field of \<^verbatim>\<open>/face_expression\<close>; \<open>None\<close> where the reply has no such field.
\<close>

record reply =
  http :: nat
  status :: string
  message :: msg
  angles :: "hand_angles option"
  expression :: "string option"
  look :: "(int \<times> int) option"

definition json_reply :: "nat \<Rightarrow> string \<Rightarrow> msg \<Rightarrow> reply" where
  "json_reply c st m =
     \<lparr>http = c, status = st, message = m, angles = None, expression = None, look = None\<rparr>"

definition status_of :: "bool \<Rightarrow> string" where
  "status_of success = (if success then ''success'' else ''error'')"

subsection \<open>The device links of the Raspberry Pi server\<close>

text \<open>
  \<^verbatim>\<open>init_hand_arduino\<close> and \<^verbatim>\<open>init_face_arduino\<close> of \<^verbatim>\<open>src/rasbery_h.py\<close> have the same
  text up to the variable, the port constants and the test line, so one function of the
  device stands for both. An open port is closed first; then the port is opened, its
  buffers are reset (which raises on a port that is not open) and the test line is
  written. Any exception sets the variable to \<^verbatim>\<open>None\<close> and gives \<^verbatim>\<open>False\<close>.
\<close>

definition pi_init_arduino :: "world \<Rightarrow> device \<Rightarrow> server \<Rightarrow> bool \<times> server" where
  "pi_init_arduino w d s =
     (let s0 = (if link_of d s = OpenPort then set_link d ClosedPort (record_event (Close d) s) else s);
          r = serial_open w d (now s0);
          s1 = record_event (Connect d r) s0
      in case r of
           Raises \<Rightarrow> (False, set_link d NoLink s1)
         | NotOpen \<Rightarrow> (False, set_link d NoLink s1)
         | IsOpen \<Rightarrow>
             (let ok = serial_write w d (now s1);
                  s2 = record_event (Write d (test_command d) ok) (set_link d OpenPort s1)
              in if ok then (True, s2) else (False, set_link d NoLink s2)))"



text \<open>
  \<^verbatim>\<open>send_to_hand_arduino\<close> and \<^verbatim>\<open>send_to_face_arduino\<close> of \<^verbatim>\<open>src/rasbery_h.py\<close>, again
  the same text up to the device: no reconnect, and the \<^verbatim>\<open>except\<close> branch only builds
  the failure.
\<close>

definition pi_send_to_arduino :: "world \<Rightarrow> device \<Rightarrow> string \<Rightarrow> server \<Rightarrow> bool \<times> msg \<times> server" where
  "pi_send_to_arduino w d data_str s =
     (if link_of d s \<noteq> OpenPort then (False, MsgNotConnected d, s)
      else
        (let line = (if endswith_nl data_str then data_str else data_str @ [CHR 0x0A]);
             ok = serial_write w d (now s);
             s1 = record_event (Write d line ok) s
         in if ok then (True, MsgSent, s1) else (False, MsgSendError, s1)))"

definition pi_send_to_hand_arduino :: "world \<Rightarrow> string \<Rightarrow> server \<Rightarrow> bool \<times> msg \<times> server" where
  "pi_send_to_hand_arduino w data_str s = pi_send_to_arduino w Hand data_str s"

definition pi_send_to_face_arduino :: "world \<Rightarrow> string \<Rightarrow> server \<Rightarrow> bool \<times> msg \<times> server" where
  "pi_send_to_face_arduino w data_str s = pi_send_to_arduino w Face data_str s"

subsection \<open>The device links of the PC server\<close>

text \<open>
  \<^verbatim>\<open>init_hand_arduino\<close> and \<^verbatim>\<open>init_face_arduino\<close> of \<^verbatim>\<open>src/Volt/rasbery_h.py\<close>: the object
  returned by \<^verbatim>\<open>serial.Serial\<close> is tested with \<^verbatim>\<open>is_open\<close>; when it is not open the
  function gives \<^verbatim>\<open>False\<close> and keeps the object. After the test line has been written
  the port is asked for a pending answer (\<^verbatim>\<open>in_waiting\<close>, \<^verbatim>\<open>readline\<close>); this read is
  inside the \<^verbatim>\<open>try\<close>, so when it raises the variable is set to \<^verbatim>\<open>None\<close> and the function
  gives \<^verbatim>\<open>False\<close>, as for any other exception.
\<close>

definition volt_init_arduino :: "world \<Rightarrow> device \<Rightarrow> server \<Rightarrow> bool \<times> server" where
  "volt_init_arduino w d s =
     (let s0 = (if link_of d s = OpenPort then set_link d ClosedPort (record_event (Close d) s) else s);
          r = serial_open w d (now s0);
          s1 = record_event (Connect d r) s0
      in case r of
           Raises \<Rightarrow> (False, set_link d NoLink s1)
         | NotOpen \<Rightarrow> (False, set_link d ClosedPort s1)
         | IsOpen \<Rightarrow>
             (let ok = serial_write w d (now s1);
                  s2 = record_event (Write d (test_command d) ok) (set_link d OpenPort s1)
              in if \<not> ok then (False, set_link d NoLink s2)
                 else
                   (let answered = serial_read w d (now s2);
                        s3 = record_event (Read d answered) s2
                    in if answered then (True, s3) else (False, set_link d NoLink s3))))"

definition volt_init_hand_arduino :: "world \<Rightarrow> server \<Rightarrow> bool \<times> server" where
  "volt_init_hand_arduino w s = volt_init_arduino w Hand s"

definition volt_init_face_arduino :: "world \<Rightarrow> server \<Rightarrow> bool \<times> server" where
  "volt_init_face_arduino w s = volt_init_arduino w Face s"

text \<open>
  The write shared by the two send functions of the PC server: the body of their
  \<^verbatim>\<open>try\<close> block (the write, then the read of a pending answer) and their \<^verbatim>\<open>except\<close>
  branch, which sets the variable to \<^verbatim>\<open>None\<close> whichever of the two raised.
\<close>

definition volt_write :: "world \<Rightarrow> device \<Rightarrow> string \<Rightarrow> server \<Rightarrow> bool \<times> msg \<times> server" where
  "volt_write w d data_str s =
     (let line = (if endswith_nl data_str then data_str else data_str @ [CHR 0x0A]);
          ok = serial_write w d (now s);
          s1 = record_event (Write d line ok) s
      in if \<not> ok then (False, MsgSendError, set_link d NoLink s1)
         else
           (let answered = serial_read w d (now s1);
                s2 = record_event (Read d answered) s1
            in if answered then (True, MsgSent, s2)
               else (False, MsgSendError, set_link d NoLink s2)))"

definition volt_send_to_hand_arduino :: "world \<Rightarrow> string \<Rightarrow> server \<Rightarrow> bool \<times> msg \<times> server" where
  "volt_send_to_hand_arduino w data_str s =
     (if hand_arduino s \<noteq> OpenPort then
        (case volt_init_hand_arduino w s of
           (False, s1) \<Rightarrow> (False, MsgNotConnected Hand, s1)
         | (True, s1) \<Rightarrow> volt_write w Hand data_str s1)
      else volt_write w Hand data_str s)"

definition volt_send_to_face_arduino :: "world \<Rightarrow> string \<Rightarrow> server \<Rightarrow> bool \<times> msg \<times> server" where
  "volt_send_to_face_arduino w data_str s =
     (if face_arduino s = NoLink then
        (case volt_init_face_arduino w s of
           (False, s1) \<Rightarrow> (False, MsgNotInitialised, s1)
         | (True, s1) \<Rightarrow> volt_write w Face data_str s1)
      else if face_arduino s \<noteq> OpenPort then
        (case volt_init_face_arduino w s of
           (False, s1) \<Rightarrow> (False, MsgNotConnected Face, s1)
         | (True, s1) \<Rightarrow> volt_write w Face data_str s1)
      else volt_write w Face data_str s)"

subsection \<open>The command translator\<close>

definition clamp_hand :: "int \<Rightarrow> int \<Rightarrow> int \<Rightarrow> int \<Rightarrow> int \<Rightarrow> int \<Rightarrow> int \<Rightarrow> hand_angles" where
  "clamp_hand wrist' f1' f2' f3' f4' f5' f6' =
     \<lparr>wrist = max 0 (min 90 wrist'), f1 = max 0 (min 180 f1'), f2 = max 0 (min 180 f2'),
      f3 = max 0 (min 180 f3'), f4 = max 0 (min 180 f4'), f5 = max 0 (min 180 f5'),
      f6 = max 0 (min 180 f6')\<rparr>"

text \<open>
  The seven \<^verbatim>\<open>int(data.get(...))\<close> lines of \<^verbatim>\<open>set_hand\<close> and the seven clamping lines
  after them. \<open>None\<close> is the exception of an \<^verbatim>\<open>int\<close> call. The Raspberry Pi server reads a
  missing \<^verbatim>\<open>f4\<close> or \<^verbatim>\<open>f5\<close> as 0, the PC server as 180.
\<close>

definition pi_hand_angles :: "dict \<Rightarrow> hand_angles option" where
  "pi_hand_angles data = do {
     wrist' \<leftarrow> get_int data ''wrist'' 0;
     f1' \<leftarrow> get_int data ''f1'' 0;
     f2' \<leftarrow> get_int data ''f2'' 0;
     f3' \<leftarrow> get_int data ''f3'' 0;
     f4' \<leftarrow> get_int data ''f4'' 0;
     f5' \<leftarrow> get_int data ''f5'' 0;
     f6' \<leftarrow> get_int data ''f6'' 0;
     Some (clamp_hand wrist' f1' f2' f3' f4' f5' f6')
   }"

definition volt_hand_angles :: "dict \<Rightarrow> hand_angles option" where
  "volt_hand_angles data = do {
     wrist' \<leftarrow> get_int data ''wrist'' 0;
     f1' \<leftarrow> get_int data ''f1'' 0;
     f2' \<leftarrow> get_int data ''f2'' 0;
     f3' \<leftarrow> get_int data ''f3'' 0;
     f4' \<leftarrow> get_int data ''f4'' 180;
     f5' \<leftarrow> get_int data ''f5'' 180;
     f6' \<leftarrow> get_int data ''f6'' 0;
     Some (clamp_hand wrist' f1' f2' f3' f4' f5' f6')
   }"

text \<open>The f-string \<^verbatim>\<open>f"{wrist},{f1},{f2},{f3},{f4},{f5},{f6}"\<close>.\<close>

definition hand_command :: "hand_angles \<Rightarrow> string" where
  "hand_command a =
     str_int (wrist a) @ '','' @ str_int (f1 a) @ '','' @ str_int (f2 a) @ '','' @
     str_int (f3 a) @ '','' @ str_int (f4 a) @ '','' @ str_int (f5 a) @ '','' @ str_int (f6 a)"

definition EYE_MIN :: int where "EYE_MIN = 70"
definition EYE_MAX :: int where "EYE_MAX = 110"
definition EYE_CENTER :: int where "EYE_CENTER = 90"
definition MOUTH_MIN :: int where "MOUTH_MIN = 0"
definition MOUTH_MAX :: int where "MOUTH_MAX = 80"

text \<open>
  The command built by \<^verbatim>\<open>set_face\<close> (the same text in both servers), before
  \<^verbatim>\<open>strip()\<close>; \<open>None\<close> is the exception of an \<^verbatim>\<open>int\<close> call.
\<close>

definition face_command :: "dict \<Rightarrow> string option" where
  "face_command data = do {
     e \<leftarrow> (if map_of data ''eyes'' \<noteq> None
           then map_option (\<lambda>eyes. ''E'' @ str_int (max EYE_MIN (min eyes EYE_MAX)) @ '' '')
                  (item_int data ''eyes'')
           else Some []);
     m \<leftarrow> (if map_of data ''mouth'' \<noteq> None
           then map_option (\<lambda>mouth. ''M'' @ str_int (max MOUTH_MIN (min mouth MOUTH_MAX)))
                  (item_int data ''mouth'')
           else Some []);
     Some (e @ m)
   }"

text \<open>The table \<^verbatim>\<open>expressions\<close> of \<^verbatim>\<open>set_face_expression\<close> (eyes, mouth).\<close>

definition expressions :: "(string \<times> int \<times> int) list" where
  "expressions =
     [(''neutral'', EYE_CENTER, MOUTH_MIN), (''happy'', 85, 60), (''surprise'', EYE_MAX, 40),
      (''sad'', EYE_MIN, 20), (''blink'', 100, MOUTH_MIN), (''angry'', 75, 10),
      (''talking'', EYE_CENTER, 60)]"

text \<open>
  \<^verbatim>\<open>data.get('expression', '').lower()\<close>; \<open>None\<close> is the \<^verbatim>\<open>AttributeError\<close> of a value
  that is not a string. For a string the result is the one the value carries.
\<close>

definition expression_name :: "dict \<Rightarrow> string option" where
  "expression_name data =
     (case map_of data ''expression'' of
        None \<Rightarrow> Some []
      | Some (JStr e i l) \<Rightarrow> Some l
      | Some _ \<Rightarrow> None)"

subsection \<open>The handlers of the Raspberry Pi server\<close>

text \<open>
  The three handlers of \<^verbatim>\<open>src/rasbery_h.py\<close> that command a device start with the same
  connection check: when the variable is \<^verbatim>\<open>None\<close> or its port is not open, one call of
  the init function; \<open>False\<close> when that call fails and the handler answers 503.
\<close>

definition pi_check_connection :: "world \<Rightarrow> device \<Rightarrow> server \<Rightarrow> bool \<times> server" where
  "pi_check_connection w d s =
     (if link_of d s \<noteq> OpenPort then pi_init_arduino w d s else (True, s))"

definition pi_set_hand :: "world \<Rightarrow> body \<Rightarrow> server \<Rightarrow> reply \<times> server" where
  "pi_set_hand w b s =
     (case pi_check_connection w Hand s of
        (False, s1) \<Rightarrow> (json_reply 503 ''error'' (MsgNotConnected Hand), s1)
      | (True, s1) \<Rightarrow>
          (case b of
             BodyError \<Rightarrow> (json_reply 400 ''error'' MsgException, s1)
           | BodyFalsy \<Rightarrow> (json_reply 400 ''error'' MsgNoData, s1)
           | BodyOther quiet \<Rightarrow> (json_reply 400 ''error'' MsgException, s1)
           | BodyDict data \<Rightarrow>
               if data = [] then (json_reply 400 ''error'' MsgNoData, s1)
               else
                 (case pi_hand_angles data of
                    None \<Rightarrow> (json_reply 400 ''error'' MsgException, s1)
                  | Some a \<Rightarrow>
                      (case pi_send_to_hand_arduino w (hand_command a) s1 of
                         (success, m, s2) \<Rightarrow>
                           ((json_reply 200 (status_of success) m)\<lparr>angles := Some a\<rparr>, s2)))))"

definition pi_set_face :: "world \<Rightarrow> body \<Rightarrow> server \<Rightarrow> reply \<times> server" where
  "pi_set_face w b s =
     (case pi_check_connection w Face s of
        (False, s1) \<Rightarrow> (json_reply 503 ''error'' (MsgNotConnected Face), s1)
      | (True, s1) \<Rightarrow>
          (case b of
             BodyError \<Rightarrow> (json_reply 400 ''error'' MsgException, s1)
           | BodyFalsy \<Rightarrow> (json_reply 400 ''error'' MsgNoData, s1)
           | BodyOther quiet \<Rightarrow>
               (json_reply 400 ''error'' (if quiet then MsgNoFaceCommands else MsgException), s1)
           | BodyDict data \<Rightarrow>
               if data = [] then (json_reply 400 ''error'' MsgNoData, s1)
               else
                 (case face_command data of
                    None \<Rightarrow> (json_reply 400 ''error'' MsgException, s1)
                  | Some command \<Rightarrow>
                      if command \<noteq> [] then
                        (case pi_send_to_face_arduino w (strip command) s1 of
                           (success, m, s2) \<Rightarrow> (json_reply 200 (status_of success) m, s2))
                      else (json_reply 400 ''error'' MsgNoFaceCommands, s1))))"

definition pi_set_face_expression :: "world \<Rightarrow> body \<Rightarrow> server \<Rightarrow> reply \<times> server" where
  "pi_set_face_expression w b s =
     (case pi_check_connection w Face s of
        (False, s1) \<Rightarrow> (json_reply 503 ''error'' (MsgNotConnected Face), s1)
      | (True, s1) \<Rightarrow>
          (case b of
             BodyError \<Rightarrow> (json_reply 400 ''error'' MsgException, s1)
           | BodyFalsy \<Rightarrow> (json_reply 400 ''error'' MsgNoData, s1)
           | BodyOther quiet \<Rightarrow> (json_reply 400 ''error'' MsgException, s1)
           | BodyDict data \<Rightarrow>
               if data = [] then (json_reply 400 ''error'' MsgNoData, s1)
               else
                 (case expression_name data of
                    None \<Rightarrow> (json_reply 400 ''error'' MsgException, s1)
                  | Some e \<Rightarrow>
                      (case map_of expressions e of
                         Some (eyes, mouth) \<Rightarrow>
                           (case pi_send_to_face_arduino w
                                   (''E'' @ str_int eyes @ '' M'' @ str_int mouth) s1 of
                              (success, m, s2) \<Rightarrow>
                                ((json_reply 200 (status_of success) m)\<lparr>expression := Some e\<rparr>, s2))
                       | None \<Rightarrow> (json_reply 400 ''error'' (MsgUnknownExpression e), s1)))))"

subsection \<open>The handlers of the PC server\<close>

text \<open>
  The handlers of \<^verbatim>\<open>src/Volt/rasbery_h.py\<close> read the body first and leave the
  reconnection to the send functions; they give no HTTP code but 400 and the default 200.
\<close>

definition volt_set_hand :: "world \<Rightarrow> body \<Rightarrow> server \<Rightarrow> reply \<times> server" where
  "volt_set_hand w b s =
     (case b of
        BodyError \<Rightarrow> (json_reply 400 ''error'' MsgException, s)
      | BodyFalsy \<Rightarrow> (json_reply 400 ''error'' MsgNoData, s)
      | BodyOther quiet \<Rightarrow> (json_reply 400 ''error'' MsgException, s)
      | BodyDict data \<Rightarrow>
          if data = [] then (json_reply 400 ''error'' MsgNoData, s)
          else
            (case volt_hand_angles data of
               None \<Rightarrow> (json_reply 400 ''error'' MsgException, s)
             | Some a \<Rightarrow>
                 (case volt_send_to_hand_arduino w (hand_command a) s of
                    (success, m, s2) \<Rightarrow>
                      ((json_reply 200 (status_of success) m)\<lparr>angles := Some a\<rparr>, s2))))"

definition volt_set_face :: "world \<Rightarrow> body \<Rightarrow> server \<Rightarrow> reply \<times> server" where
  "volt_set_face w b s =
     (case b of
        BodyError \<Rightarrow> (json_reply 400 ''error'' MsgException, s)
      | BodyFalsy \<Rightarrow> (json_reply 400 ''error'' MsgNoData, s)
      | BodyOther quiet \<Rightarrow>
          (json_reply 400 ''error'' (if quiet then MsgNoFaceCommands else MsgException), s)
      | BodyDict data \<Rightarrow>
          if data = [] then (json_reply 400 ''error'' MsgNoData, s)
          else
            (case face_command data of
               None \<Rightarrow> (json_reply 400 ''error'' MsgException, s)
             | Some command \<Rightarrow>
                 if command \<noteq> [] then
                   (case volt_send_to_face_arduino w (strip command) s of
                      (success, m, s2) \<Rightarrow> (json_reply 200 (status_of success) m, s2))
                 else (json_reply 400 ''error'' MsgNoFaceCommands, s)))"

definition volt_set_face_expression :: "world \<Rightarrow> body \<Rightarrow> server \<Rightarrow> reply \<times> server" where
  "volt_set_face_expression w b s =
     (case b of
        BodyError \<Rightarrow> (json_reply 400 ''error'' MsgException, s)
      | BodyFalsy \<Rightarrow> (json_reply 400 ''error'' MsgNoData, s)
      | BodyOther quiet \<Rightarrow> (json_reply 400 ''error'' MsgException, s)
      | BodyDict data \<Rightarrow>
          if data = [] then (json_reply 400 ''error'' MsgNoData, s)
          else
            (case expression_name data of
               None \<Rightarrow> (json_reply 400 ''error'' MsgException, s)
             | Some e \<Rightarrow>
                 (case map_of expressions e of
                    Some (eyes, mouth) \<Rightarrow>
                      (case volt_send_to_face_arduino w
                              (''E'' @ str_int eyes @ '' M'' @ str_int mouth) s of
                         (success, m, s2) \<Rightarrow>
                           ((json_reply 200 (status_of success) m)\<lparr>expression := Some e\<rparr>, s2))
                  | None \<Rightarrow> (json_reply 400 ''error'' (MsgUnknownExpression e), s))))"

subsection \<open>\<^verbatim>\<open>/status\<close> and \<^verbatim>\<open>/camera/stop\<close>\<close>




text \<open>
  \<^verbatim>\<open>stop_camera\<close> has the same text in both servers, up to a \<^verbatim>\<open>time.sleep\<close> in the PC
  server. It assigns \<^verbatim>\<open>camera_running\<close> and \<^verbatim>\<open>camera\<close> and no other variable.
\<close>

definition stop_camera :: "world \<Rightarrow> server \<Rightarrow> reply \<times> server" where
  "stop_camera w s =
     (let s1 = s\<lparr>camera_running := False\<rparr>
      in case camera s1 of
           None \<Rightarrow> (json_reply 200 ''success'' MsgCameraStopped, s1)
         | Some c \<Rightarrow>
             (let ok = camera_release w (now s1);
                  s2 = record_event (Release ok) s1
              in if ok then (json_reply 200 ''success'' MsgCameraStopped, s2\<lparr>camera := None\<rparr>)
                 else (json_reply 500 ''error'' MsgException, s2)))"

text \<open>
  The test at the head of \<^verbatim>\<open>camera_snapshot\<close>: the frame that a snapshot would encode,
  or \<open>None\<close> when the handler answers 503.
\<close>

definition snapshot_frame :: "server \<Rightarrow> nat option" where
  "snapshot_frame s = (if \<not> camera_running s \<or> latest_frame s = None then None else latest_frame s)"

subsection \<open>\<^verbatim>\<open>/face_look\<close> of the PC server\<close>

text \<open>
  \<^verbatim>\<open>face_to_servo\<close> computes with floats. A double is a rational number, and each float
  operation of the function gives the rounding \<open>r\<close> of its exact result, so the function
  is written over the rationals with the rounding \<open>r\<close> as a parameter. The round-to-nearest
  of binary64 satisfies \<open>binary64_rounding\<close> below: half a unit in the last place for a
  result in the normal range, and less than the smallest subnormal under it.
\<close>

definition dbl_overflow :: rat where
  "dbl_overflow = 2 ^ 1024 - 2 ^ 970"

definition binary64_rounding :: "(rat \<Rightarrow> rat) \<Rightarrow> bool" where
  "binary64_rounding r = (\<forall>v. \<bar>v\<bar> < dbl_overflow \<longrightarrow> \<bar>r v - v\<bar> \<le> \<bar>v\<bar> / 2 ^ 53 + 1 / 2 ^ 1075)"

text \<open>
  \<^verbatim>\<open>a / b\<close> on two Python integers: \<^verbatim>\<open>ZeroDivisionError\<close> for \<open>b = 0\<close>,
  \<^verbatim>\<open>OverflowError\<close> when the quotient rounds to a value beyond the largest double, and
  the correctly rounded quotient otherwise. \<open>None\<close> is either exception.
\<close>

definition py_truediv :: "(rat \<Rightarrow> rat) \<Rightarrow> int \<Rightarrow> int \<Rightarrow> rat option" where
  "py_truediv r a b =
     (if b = 0 then None
      else if dbl_overflow \<le> \<bar>of_int a / of_int b\<bar> then None
      else Some (r (of_int a / of_int b)))"

text \<open>\<^verbatim>\<open>int(round(v))\<close> on a float: the nearest integer, a tie going to the even one.\<close>

definition py_round :: "rat \<Rightarrow> int" where
  "py_round v =
     (let n = \<lfloor>v\<rfloor>; d = v - of_int n
      in if d < 1 / 2 then n else if 1 / 2 < d then n + 1 else if even n then n else n + 1)"

definition EYE_PAN_MIN :: int where "EYE_PAN_MIN = 70"
definition EYE_PAN_MAX :: int where "EYE_PAN_MAX = 110"
definition EYE_TILT_MIN :: int where "EYE_TILT_MIN = 60"
definition EYE_TILT_MAX :: int where "EYE_TILT_MAX = 100"
definition CAM_W :: int where "CAM_W = 640"
definition CAM_H :: int where "CAM_H = 480"

definition face_to_servo :: "(rat \<Rightarrow> rat) \<Rightarrow> int \<Rightarrow> int \<Rightarrow> int \<Rightarrow> int \<Rightarrow> (int \<times> int) option" where
  "face_to_servo r x_px y_px w_px h_px = do {
     qx \<leftarrow> py_truediv r x_px w_px;
     qy \<leftarrow> py_truediv r y_px h_px;
     let nx = max 0 (min 1 qx);
         ny = max 0 (min 1 qy);
         pan = r (of_int EYE_PAN_MIN + r (r (1 - nx) * of_int (EYE_PAN_MAX - EYE_PAN_MIN)));
         tilt = r (of_int EYE_TILT_MIN + r (ny * of_int (EYE_TILT_MAX - EYE_TILT_MIN)))
     in Some (py_round pan, py_round tilt)
   }"

text \<open>The f-string \<^verbatim>\<open>f"E{pan} T{tilt}\n"\<close> of \<^verbatim>\<open>face_look\<close>.\<close>

definition look_command :: "int \<Rightarrow> int \<Rightarrow> string" where
  "look_command pan tilt = ''E'' @ str_int pan @ '' T'' @ str_int tilt @ [CHR 0x0A]"

text \<open>
  \<^verbatim>\<open>face_look\<close> has no \<^verbatim>\<open>try\<close>: the reply is \<open>None\<close> when an exception leaves the
  handler (the body cannot be read or is not an object, an \<^verbatim>\<open>int\<close> call or the
  division raises) and Flask answers with an error page. \<^verbatim>\<open>request.json or {}\<close> reads
  a body that is false in a condition as the empty object. The handler calls
  \<^verbatim>\<open>face_to_servo(x, y)\<close>, so the frame size is that of the default arguments.
\<close>

definition face_look :: "world \<Rightarrow> body \<Rightarrow> server \<Rightarrow> reply option \<times> server" where
  "face_look w b s =
     (case (case b of BodyError \<Rightarrow> None | BodyOther quiet \<Rightarrow> None | BodyFalsy \<Rightarrow> Some []
                    | BodyDict data \<Rightarrow> Some data) of
        None \<Rightarrow> (None, s)
      | Some data \<Rightarrow>
          (case get_int data ''x'' 320 of
             None \<Rightarrow> (None, s)
           | Some x \<Rightarrow>
               (case get_int data ''y'' 240 of
                  None \<Rightarrow> (None, s)
                | Some y \<Rightarrow>
                    (case face_to_servo (fl w) x y 640 480 of
                       None \<Rightarrow> (None, s)
                     | Some (pan, tilt) \<Rightarrow>
                         (case volt_send_to_face_arduino w (look_command pan tilt) s of
                            (ok, m, s1) \<Rightarrow>
                              (Some ((json_reply 200 (status_of ok) m)\<lparr>look := Some (pan, tilt)\<rparr>),
                               s1))))))"

subsection \<open>The words of the specification\<close>

text \<open>
  The hand ranges of the specification: the wrist in 0..90, each finger in 0..180.
\<close>

definition in_hand_ranges :: "hand_angles \<Rightarrow> bool" where
  "in_hand_ranges a =
     (0 \<le> wrist a \<and> wrist a \<le> 90 \<and> 0 \<le> f1 a \<and> f1 a \<le> 180 \<and> 0 \<le> f2 a \<and> f2 a \<le> 180 \<and>
      0 \<le> f3 a \<and> f3 a \<le> 180 \<and> 0 \<le> f4 a \<and> f4 a \<le> 180 \<and> 0 \<le> f5 a \<and> f5 a \<le> 180 \<and>
      0 \<le> f6 a \<and> f6 a \<le> 180)"

text \<open>The seven channels of a hand pose by name, and the upper bound of each.\<close>

definition hand_channels :: "string list" where
  "hand_channels = [''wrist'', ''f1'', ''f2'', ''f3'', ''f4'', ''f5'', ''f6'']"

definition channel :: "string \<Rightarrow> hand_angles \<Rightarrow> int" where
  "channel k a =
     (if k = ''wrist'' then wrist a else if k = ''f1'' then f1 a else if k = ''f2'' then f2 a
      else if k = ''f3'' then f3 a else if k = ''f4'' then f4 a else if k = ''f5'' then f5 a
      else f6 a)"

definition limit :: "string \<Rightarrow> int" where
  "limit k = (if k = ''wrist'' then 90 else 180)"

text \<open>A payload in which every channel that is supplied is a JSON integer.\<close>

definition int_payload :: "dict \<Rightarrow> bool" where
  "int_payload data =
     list_all (\<lambda>k. case map_of data k of None \<Rightarrow> True | Some (JInt i) \<Rightarrow> True | Some _ \<Rightarrow> False)
       hand_channels"

text \<open>The lines written to a device among some events, in order.\<close>

definition lines_to :: "device \<Rightarrow> event list \<Rightarrow> string list" where
  "lines_to d es =
     concat (map (\<lambda>e. case e of Write d' l ok \<Rightarrow> if d' = d then [l] else [] | _ \<Rightarrow> []) es)"

text \<open>
  A \<^verbatim>\<open>/hand\<close> request was accepted and clamped: the reply has code 200 and echoes angles
  that lie in their ranges; every supplied integer channel is echoed saturated at its
  bounds; and every line written to the hand is the comma-joined echo (or the test line of
  a reconnection).
\<close>

definition hand_reply_clamped :: "dict \<Rightarrow> reply \<Rightarrow> event list \<Rightarrow> bool" where
  "hand_reply_clamped data r es =
     (http r = 200 \<and>
      (case angles r of
         None \<Rightarrow> False
       | Some a \<Rightarrow>
           in_hand_ranges a \<and>
           list_all (\<lambda>k. case map_of data k of
                           Some (JInt i) \<Rightarrow> channel k a = max 0 (min (limit k) i)
                         | _ \<Rightarrow> True) hand_channels \<and>
           list_all (\<lambda>l. l = test_command Hand \<or> l = hand_command a @ [CHR 0x0A])
             (lines_to Hand es)))"

text \<open>
  The linear maps of the specification for a 640 by 480 frame, an integer nearest to a
  number (either neighbour at a tie), and the clamp to a closed range.
\<close>

definition spec_pan :: "int \<Rightarrow> rat" where
  "spec_pan x = of_int EYE_PAN_MIN + (1 - of_int x / 640) * of_int (EYE_PAN_MAX - EYE_PAN_MIN)"

definition spec_tilt :: "int \<Rightarrow> rat" where
  "spec_tilt y = of_int EYE_TILT_MIN + (of_int y / 480) * of_int (EYE_TILT_MAX - EYE_TILT_MIN)"

definition nearest_int :: "rat \<Rightarrow> int \<Rightarrow> bool" where
  "nearest_int v n = (\<bar>of_int n - v\<bar> \<le> 1 / 2)"

definition clamp :: "int \<Rightarrow> int \<Rightarrow> int \<Rightarrow> int" where
  "clamp lo hi n = max lo (min hi n)"

text \<open>
  The angles of the specification for a pixel: each is the linear map of its coordinate,
  rounded to a nearest integer and clamped to the range of its servo.
\<close>

definition servo_angles :: "int \<Rightarrow> int \<Rightarrow> int \<times> int \<Rightarrow> bool" where
  "servo_angles x y a =
     (case a of (pan, tilt) \<Rightarrow>
        (\<exists>n. nearest_int (spec_pan x) n \<and> pan = clamp EYE_PAN_MIN EYE_PAN_MAX n) \<and>
        (\<exists>n. nearest_int (spec_tilt y) n \<and> tilt = clamp EYE_TILT_MIN EYE_TILT_MAX n))"

text \<open>The quotient of two integers is a float: the division raises no exception.\<close>

definition float_divisible :: "int \<Rightarrow> int \<Rightarrow> bool" where
  "float_divisible a b = (b \<noteq> 0 \<and> \<bar>of_int a / of_int b :: rat\<bar> < dbl_overflow)"

text \<open>
  The target device is unavailable to a request: its link is not open and the one call of
  the init function that the request leads to fails.
\<close>

definition unavailable :: "(world \<Rightarrow> device \<Rightarrow> server \<Rightarrow> bool \<times> server) \<Rightarrow> world \<Rightarrow> device \<Rightarrow> server \<Rightarrow> bool" where
  "unavailable init w d s = (link_of d s \<noteq> OpenPort \<and> \<not> fst (init w d s))"

text \<open>
  The target device is usable by a request: its link is open, or the one call of the init
  function of the Raspberry Pi server succeeds.
\<close>

definition usable :: "world \<Rightarrow> device \<Rightarrow> server \<Rightarrow> bool" where
  "usable w d s = (link_of d s = OpenPort \<or> fst (pi_init_arduino w d s))"

text \<open>A body that is not an object, or an object with both \<^verbatim>\<open>f4\<close> and \<^verbatim>\<open>f5\<close>.\<close>

definition supplies_f4_f5 :: "body \<Rightarrow> bool" where
  "supplies_f4_f5 b =
     (case b of BodyDict data \<Rightarrow> map_of data ''f4'' \<noteq> None \<and> map_of data ''f5'' \<noteq> None
      | _ \<Rightarrow> True)"

text \<open>
  A request fails validation: the body cannot be read, is not an object or is empty; or,
  for \<^verbatim>\<open>/hand\<close>, \<^verbatim>\<open>int()\<close> raises on a channel; for \<^verbatim>\<open>/face\<close>, \<^verbatim>\<open>int()\<close> raises on a
  field or neither field is there; for \<^verbatim>\<open>/face_expression\<close>, the name is no string or
  its lower-case form is not in the table.
\<close>

definition hand_refused :: "(dict \<Rightarrow> hand_angles option) \<Rightarrow> body \<Rightarrow> bool" where
  "hand_refused angles_of b =
     (case b of BodyDict data \<Rightarrow> data = [] \<or> angles_of data = None | _ \<Rightarrow> True)"

definition face_refused :: "body \<Rightarrow> bool" where
  "face_refused b =
     (case b of
        BodyDict data \<Rightarrow> data = [] \<or> face_command data = None \<or> face_command data = Some []
      | _ \<Rightarrow> True)"

definition expression_refused :: "body \<Rightarrow> bool" where
  "expression_refused b =
     (case b of
        BodyDict data \<Rightarrow>
          data = [] \<or>
          (case expression_name data of None \<Rightarrow> True | Some e \<Rightarrow> map_of expressions e = None)
      | _ \<Rightarrow> True)"

text \<open>
  What the Raspberry Pi server does with a request that fails validation: with the link
  open, code 400 and the state untouched; otherwise the state left by the one call of the
  init function, with code 400 when that call succeeds and 503 when it fails.
\<close>

definition pi_refusal :: "world \<Rightarrow> device \<Rightarrow> server \<Rightarrow> reply \<times> server \<Rightarrow> bool" where
  "pi_refusal w d s out =
     (if link_of d s = OpenPort then http (fst out) = 400 \<and> snd out = s
      else snd out = snd (pi_init_arduino w d s) \<and>
           http (fst out) = (if fst (pi_init_arduino w d s) then 400 else 503))"



text \<open>
  The face command of the specification for the fields present in a request: the tokens
  \<^verbatim>\<open>E<eyes>\<close> and \<^verbatim>\<open>M<mouth>\<close> of the fields that are there, in this order, joined by one
  space, with the eyes saturated to 70..110 and the mouth to 0..80.
\<close>

definition spec_face_command :: "int option \<Rightarrow> int option \<Rightarrow> string" where
  "spec_face_command eyes mouth =
     (case (eyes, mouth) of
        (Some e, Some m) \<Rightarrow> ''E'' @ str_int (clamp 70 110 e) @ '' M'' @ str_int (clamp 0 80 m)
      | (Some e, None) \<Rightarrow> ''E'' @ str_int (clamp 70 110 e)
      | (None, Some m) \<Rightarrow> ''M'' @ str_int (clamp 0 80 m)
      | (None, None) \<Rightarrow> [])"

text \<open>
  A request whose \<^verbatim>\<open>eyes\<close> and \<^verbatim>\<open>mouth\<close> are the given integers or are absent, one at
  least being present.
\<close>

definition face_fields :: "dict \<Rightarrow> int option \<Rightarrow> int option \<Rightarrow> bool" where
  "face_fields data eyes mouth =
     (map_of data ''eyes'' = map_option JInt eyes \<and> map_of data ''mouth'' = map_option JInt mouth \<and>
      (eyes \<noteq> None \<or> mouth \<noteq> None))"

text \<open>
  A request was accepted and sent as one line: the reply has code 200; every line written
  to the device is that line or the test line of a reconnection; and when the link was
  open the one write performed is the write of that line, the only other operation being
  the read of the answer that the PC server performs after a write that went through.
\<close>

definition sent_as :: "device \<Rightarrow> string \<Rightarrow> server \<Rightarrow> nat \<Rightarrow> server \<Rightarrow> bool" where
  "sent_as d line s code s' =
     (code = 200 \<and>
      list_all (\<lambda>l. l = test_command d \<or> l = line) (lines_to d (new_events s s')) \<and>
      (link_of d s = OpenPort \<longrightarrow>
         new_events s s' = [Write d line True] \<or> new_events s s' = [Write d line False] \<or>
         new_events s s' = [Write d line True, Read d True] \<or>
         new_events s s' = [Write d line True, Read d False]))"

text \<open>
  The lines that \<^verbatim>\<open>/face_look\<close> may write to the face for its command \<open>line\<close>: with the
  link open, that line alone; with the link not open, the test line of the reconnection
  followed by that line when the reconnection succeeds, and at most the test line, without
  that line, when it fails.
\<close>

definition look_lines :: "world \<Rightarrow> server \<Rightarrow> string \<Rightarrow> string list \<Rightarrow> bool" where
  "look_lines w s line ls =
     (if face_arduino s = OpenPort then ls = [line]
      else if fst (volt_init_arduino w Face s) then ls = [test_command Face, line]
      else ls = [] \<or> ls = [test_command Face])"

text \<open>
  Two replies with the same HTTP code and the same echo (the angles of \<^verbatim>\<open>/hand\<close>, the
  name of \<^verbatim>\<open>/face_expression\<close>); the fields \<^verbatim>\<open>status\<close> and \<^verbatim>\<open>message\<close> may differ.
\<close>

definition same_answer :: "reply \<Rightarrow> reply \<Rightarrow> bool" where
  "same_answer r r' =
     (http r = http r' \<and> angles r = angles r' \<and> expression r = expression r' \<and> look r = look r')"

text \<open>
  From a state with the link open, the read that the PC server performs after writing the
  line of the request does not raise (there is no such read when the write raises).
\<close>

definition answer_read :: "world \<Rightarrow> device \<Rightarrow> server \<Rightarrow> bool" where
  "answer_read w d s = (serial_write w d (now s) \<longrightarrow> serial_read w d (Suc (now s)))"

text \<open>
  What the two servers have in common on one request to device \<open>d\<close> from state \<open>s\<close>, given
  the outcome of the Raspberry Pi server and that of the PC server: the same HTTP code and
  echo; the lines written by the PC server are the first of those written by the Raspberry
  Pi server; with the link open the lines written are the same, and so is the whole reply
  when the read of the answer does not raise.
\<close>

definition agree_on :: "world \<Rightarrow> device \<Rightarrow> server \<Rightarrow> reply \<times> server \<Rightarrow> reply \<times> server \<Rightarrow> bool" where
  "agree_on w d s out_pi out_volt =
     (same_answer (fst out_pi) (fst out_volt) \<and>
      take (length (lines_to d (new_events s (snd out_volt))))
        (lines_to d (new_events s (snd out_pi))) = lines_to d (new_events s (snd out_volt)) \<and>
      (link_of d s = OpenPort \<longrightarrow>
         lines_to d (new_events s (snd out_pi)) = lines_to d (new_events s (snd out_volt)) \<and>
         (answer_read w d s \<longrightarrow> fst out_pi = fst out_volt)))"

text \<open>
  The pixel that \<^verbatim>\<open>face_look\<close> reads from a body: \<^verbatim>\<open>x\<close> and \<^verbatim>\<open>y\<close> with the defaults
  320 and 240; \<open>None\<close> when the body or one of the two values cannot be read.
\<close>

definition requested_pixel :: "body \<Rightarrow> (int \<times> int) option" where
  "requested_pixel b =
     (case (case b of BodyError \<Rightarrow> None | BodyOther quiet \<Rightarrow> None | BodyFalsy \<Rightarrow> Some []
                    | BodyDict data \<Rightarrow> Some data) of
        None \<Rightarrow> None
      | Some data \<Rightarrow>
          (case get_int data ''x'' 320 of
             None \<Rightarrow> None
           | Some x \<Rightarrow> (case get_int data ''y'' 240 of None \<Rightarrow> None | Some y \<Rightarrow> Some (x, y))))"

subsection \<open>Concrete environments and states\<close>

text \<open>
  Four environments with exact arithmetic: every operation succeeds; no port can be
  opened; ports open but every write raises; ports open and writes go through but every
  read raises. And the state of a server that has just started without devices.
\<close>

definition all_ok :: world where
  "all_ok = \<lparr>serial_open = (\<lambda>d n. IsOpen), serial_write = (\<lambda>d n. True),
             serial_read = (\<lambda>d n. True), camera_release = (\<lambda>n. True), fl = (\<lambda>v. v)\<rparr>"

definition no_port :: world where
  "no_port = \<lparr>serial_open = (\<lambda>d n. Raises), serial_write = (\<lambda>d n. True),
              serial_read = (\<lambda>d n. True), camera_release = (\<lambda>n. True), fl = (\<lambda>v. v)\<rparr>"

definition write_fails :: world where
  "write_fails = \<lparr>serial_open = (\<lambda>d n. IsOpen), serial_write = (\<lambda>d n. False),
                  serial_read = (\<lambda>d n. True), camera_release = (\<lambda>n. True), fl = (\<lambda>v. v)\<rparr>"

definition read_fails :: world where
  "read_fails = \<lparr>serial_open = (\<lambda>d n. IsOpen), serial_write = (\<lambda>d n. True),
                 serial_read = (\<lambda>d n. False), camera_release = (\<lambda>n. True), fl = (\<lambda>v. v)\<rparr>"

definition idle :: server where
  "idle = \<lparr>hand_arduino = NoLink, face_arduino = NoLink, camera = None, camera_running = False,
           latest_frame = None, trace = []\<rparr>"

text \<open>A server with both ports open, a running camera and frame 7 in the slot.\<close>

definition running :: server where
  "running = \<lparr>hand_arduino = OpenPort, face_arduino = OpenPort, camera = Some 0,
              camera_running = True, latest_frame = Some 7, trace = []\<rparr>"


section \<open>Properties\<close>

subsection \<open>Strings of integers\<close>

lemmas link_defs = link_of_def set_link_def record_event_def now_def

lemma digit_char_in: "digit_char n \<in> set ''0123456789''"
  unfolding digit_char_def by (rule nth_mem) simp

lemma str_nat_nonempty: "str_nat n \<noteq> []"
  by (subst str_nat.simps) simp

lemma last_str_nat: "last (str_nat n) = digit_char n"
  by (subst str_nat.simps) (simp add: str_nat_nonempty)

lemma set_str_nat: "set (str_nat n) \<subseteq> set ''0123456789''"
proof (induction n rule: str_nat.induct)
  case (1 n)
  show ?case
  proof (cases "n < 10")
    case True
    then show ?thesis using digit_char_in[of n] by (subst str_nat.simps) simp
  next
    case False
    then show ?thesis using 1 digit_char_in[of n] by (subst str_nat.simps) simp
  qed
qed

lemma str_int_nonempty: "str_int i \<noteq> []"
  by (simp add: str_int_def str_nat_nonempty)

lemma last_str_int: "last (str_int i) = digit_char (nat \<bar>i\<bar>)"
  by (simp add: str_int_def str_nat_nonempty last_str_nat)

lemma digit_char_not_nl: "digit_char n \<noteq> CHR 0x0A"
  using digit_char_in[of n] by auto

lemma hand_command_no_nl: "\<not> endswith_nl (hand_command a)"
  by (simp add: endswith_nl_def hand_command_def str_int_nonempty last_str_int digit_char_not_nl)

subsection \<open>The hand translator\<close>

lemma clamp_hand_in_ranges: "in_hand_ranges (clamp_hand a b c d e f g)"
  by (simp add: in_hand_ranges_def clamp_hand_def)

lemma pi_hand_angles_in_ranges: "pi_hand_angles data = Some a \<Longrightarrow> in_hand_ranges a"
  by (auto simp: pi_hand_angles_def clamp_hand_in_ranges split: Option.bind_splits)

lemma volt_hand_angles_in_ranges: "volt_hand_angles data = Some a \<Longrightarrow> in_hand_ranges a"
  by (auto simp: volt_hand_angles_def clamp_hand_in_ranges split: Option.bind_splits)

lemma int_payload_get:
  assumes "int_payload data" "k \<in> set hand_channels"
  shows "\<exists>i. get_int data k d = Some i"
proof -
  from assms have "case map_of data k of None \<Rightarrow> True | Some (JInt i) \<Rightarrow> True | Some _ \<Rightarrow> False"
    by (simp add: int_payload_def list_all_iff)
  then show ?thesis by (auto simp: get_int_def split: option.splits jval.splits)
qed

lemma int_payload_pi_hand_angles:
  assumes "int_payload data"
  shows "\<exists>a. pi_hand_angles data = Some a"
proof -
  note g = int_payload_get[OF assms]
  from g[of "''wrist''" 0] obtain w where "get_int data ''wrist'' 0 = Some w" by (auto simp: hand_channels_def)
  moreover from g[of "''f1''" 0] obtain a1 where "get_int data ''f1'' 0 = Some a1" by (auto simp: hand_channels_def)
  moreover from g[of "''f2''" 0] obtain a2 where "get_int data ''f2'' 0 = Some a2" by (auto simp: hand_channels_def)
  moreover from g[of "''f3''" 0] obtain a3 where "get_int data ''f3'' 0 = Some a3" by (auto simp: hand_channels_def)
  moreover from g[of "''f4''" 0] obtain a4 where "get_int data ''f4'' 0 = Some a4" by (auto simp: hand_channels_def)
  moreover from g[of "''f5''" 0] obtain a5 where "get_int data ''f5'' 0 = Some a5" by (auto simp: hand_channels_def)
  moreover from g[of "''f6''" 0] obtain a6 where "get_int data ''f6'' 0 = Some a6" by (auto simp: hand_channels_def)
  ultimately show ?thesis by (simp add: pi_hand_angles_def)
qed

lemma int_payload_volt_hand_angles:
  assumes "int_payload data"
  shows "\<exists>a. volt_hand_angles data = Some a"
proof -
  note g = int_payload_get[OF assms]
  from g[of "''wrist''" 0] obtain w where "get_int data ''wrist'' 0 = Some w" by (auto simp: hand_channels_def)
  moreover from g[of "''f1''" 0] obtain a1 where "get_int data ''f1'' 0 = Some a1" by (auto simp: hand_channels_def)
  moreover from g[of "''f2''" 0] obtain a2 where "get_int data ''f2'' 0 = Some a2" by (auto simp: hand_channels_def)
  moreover from g[of "''f3''" 0] obtain a3 where "get_int data ''f3'' 0 = Some a3" by (auto simp: hand_channels_def)
  moreover from g[of "''f4''" 180] obtain a4 where "get_int data ''f4'' 180 = Some a4" by (auto simp: hand_channels_def)
  moreover from g[of "''f5''" 180] obtain a5 where "get_int data ''f5'' 180 = Some a5" by (auto simp: hand_channels_def)
  moreover from g[of "''f6''" 0] obtain a6 where "get_int data ''f6'' 0 = Some a6" by (auto simp: hand_channels_def)
  ultimately show ?thesis by (simp add: volt_hand_angles_def)
qed

lemma get_int_JInt: "map_of data k = Some (JInt i) \<Longrightarrow> get_int data k d = Some i"
  by (simp add: get_int_def)

lemma pi_hand_angles_SomeD:
  "pi_hand_angles data = Some a \<Longrightarrow>
   \<exists>w a1 a2 a3 a4 a5 a6. get_int data ''wrist'' 0 = Some w \<and> get_int data ''f1'' 0 = Some a1 \<and>
      get_int data ''f2'' 0 = Some a2 \<and> get_int data ''f3'' 0 = Some a3 \<and>
      get_int data ''f4'' 0 = Some a4 \<and> get_int data ''f5'' 0 = Some a5 \<and>
      get_int data ''f6'' 0 = Some a6 \<and> a = clamp_hand w a1 a2 a3 a4 a5 a6"
  by (auto simp: pi_hand_angles_def split: Option.bind_splits)

lemma volt_hand_angles_SomeD:
  "volt_hand_angles data = Some a \<Longrightarrow>
   \<exists>w a1 a2 a3 a4 a5 a6. get_int data ''wrist'' 0 = Some w \<and> get_int data ''f1'' 0 = Some a1 \<and>
      get_int data ''f2'' 0 = Some a2 \<and> get_int data ''f3'' 0 = Some a3 \<and>
      get_int data ''f4'' 180 = Some a4 \<and> get_int data ''f5'' 180 = Some a5 \<and>
      get_int data ''f6'' 0 = Some a6 \<and> a = clamp_hand w a1 a2 a3 a4 a5 a6"
  by (auto simp: volt_hand_angles_def split: Option.bind_splits)

lemma saturate_key:
  "get_int data k d = Some v \<Longrightarrow> channel k a = max 0 (min (limit k) v) \<Longrightarrow>
   (case map_of data k of Some (JInt i) \<Rightarrow> channel k a = max 0 (min (limit k) i) | _ \<Rightarrow> True)"
  by (auto simp: get_int_def split: option.splits jval.splits)

lemma clamp_hand_saturate:
  assumes "get_int data ''wrist'' 0 = Some w" "get_int data ''f1'' 0 = Some a1"
    "get_int data ''f2'' 0 = Some a2" "get_int data ''f3'' 0 = Some a3"
    "get_int data ''f4'' d4 = Some a4" "get_int data ''f5'' d5 = Some a5"
    "get_int data ''f6'' 0 = Some a6"
  shows "list_all (\<lambda>k. case map_of data k of
                           Some (JInt i) \<Rightarrow> channel k (clamp_hand w a1 a2 a3 a4 a5 a6) = max 0 (min (limit k) i)
                         | _ \<Rightarrow> True) hand_channels"
proof -
  let ?a = "clamp_hand w a1 a2 a3 a4 a5 a6"
  have "channel ''wrist'' ?a = max 0 (min (limit ''wrist'') w)"
    by (simp add: channel_def limit_def clamp_hand_def)
  note k0 = saturate_key[OF assms(1) this]
  have "channel ''f1'' ?a = max 0 (min (limit ''f1'') a1)"
    by (simp add: channel_def limit_def clamp_hand_def)
  note k1 = saturate_key[OF assms(2) this]
  have "channel ''f2'' ?a = max 0 (min (limit ''f2'') a2)"
    by (simp add: channel_def limit_def clamp_hand_def)
  note k2 = saturate_key[OF assms(3) this]
  have "channel ''f3'' ?a = max 0 (min (limit ''f3'') a3)"
    by (simp add: channel_def limit_def clamp_hand_def)
  note k3 = saturate_key[OF assms(4) this]
  have "channel ''f4'' ?a = max 0 (min (limit ''f4'') a4)"
    by (simp add: channel_def limit_def clamp_hand_def)
  note k4 = saturate_key[OF assms(5) this]
  have "channel ''f5'' ?a = max 0 (min (limit ''f5'') a5)"
    by (simp add: channel_def limit_def clamp_hand_def)
  note k5 = saturate_key[OF assms(6) this]
  have "channel ''f6'' ?a = max 0 (min (limit ''f6'') a6)"
    by (simp add: channel_def limit_def clamp_hand_def)
  note k6 = saturate_key[OF assms(7) this]
  show ?thesis
    unfolding hand_channels_def list.pred_inject
    by (intro conjI k0 k1 k2 k3 k4 k5 k6) simp
qed

lemma pi_hand_angles_saturate:
  assumes "pi_hand_angles data = Some a"
  shows "list_all (\<lambda>k. case map_of data k of
                           Some (JInt i) \<Rightarrow> channel k a = max 0 (min (limit k) i)
                         | _ \<Rightarrow> True) hand_channels"
  using pi_hand_angles_SomeD[OF assms] clamp_hand_saturate by blast

lemma volt_hand_angles_saturate:
  assumes "volt_hand_angles data = Some a"
  shows "list_all (\<lambda>k. case map_of data k of
                           Some (JInt i) \<Rightarrow> channel k a = max 0 (min (limit k) i)
                         | _ \<Rightarrow> True) hand_channels"
  using volt_hand_angles_SomeD[OF assms] clamp_hand_saturate by blast

subsection \<open>Traces\<close>

lemma lines_to_append: "lines_to d (es @ es') = lines_to d es @ lines_to d es'"
  by (simp add: lines_to_def)

lemma new_events_append: "trace s' = trace s @ es \<Longrightarrow> new_events s s' = es"
  by (simp add: new_events_def)

lemma pi_init_lines:
  "pi_init_arduino w d s = (up, s') \<Longrightarrow>
   \<exists>es. trace s' = trace s @ es \<and> set (lines_to d es) \<subseteq> {test_command d}"
  by (auto simp: pi_init_arduino_def Let_def link_defs lines_to_def split: open_result.splits if_splits device.splits)

lemma volt_init_lines:
  "volt_init_arduino w d s = (up, s') \<Longrightarrow>
   \<exists>es. trace s' = trace s @ es \<and> set (lines_to d es) \<subseteq> {test_command d}"
  by (auto simp: volt_init_arduino_def Let_def link_defs lines_to_def split: open_result.splits if_splits device.splits)

lemma pi_check_lines:
  "pi_check_connection w d s = (up, s') \<Longrightarrow>
   \<exists>es. trace s' = trace s @ es \<and> set (lines_to d es) \<subseteq> {test_command d}"
  by (auto simp: pi_check_connection_def lines_to_def dest: pi_init_lines split: if_splits)

lemma pi_send_lines:
  "pi_send_to_arduino w d c s = (ok, m, s') \<Longrightarrow> \<not> endswith_nl c \<Longrightarrow>
   \<exists>es. trace s' = trace s @ es \<and> set (lines_to d es) \<subseteq> {c @ [CHR 0x0A]}"
  by (auto simp: pi_send_to_arduino_def Let_def link_defs lines_to_def split: if_splits)

lemma volt_write_lines:
  "volt_write w d c s = (ok, m, s') \<Longrightarrow> \<not> endswith_nl c \<Longrightarrow>
   \<exists>es. trace s' = trace s @ es \<and> set (lines_to d es) \<subseteq> {c @ [CHR 0x0A]}"
  by (auto simp: volt_write_def Let_def link_defs lines_to_def split: if_splits device.splits)

lemma volt_send_hand_lines:
  assumes "volt_send_to_hand_arduino w c s = (ok, m, s')" "\<not> endswith_nl c"
  shows "\<exists>es. trace s' = trace s @ es \<and> set (lines_to Hand es) \<subseteq> {test_command Hand, c @ [CHR 0x0A]}"
proof (cases "hand_arduino s \<noteq> OpenPort")
  case False
  with assms volt_write_lines[of w Hand c s ok m s'] show ?thesis
    by (auto simp: volt_send_to_hand_arduino_def)
next
  case True
  obtain up s1 where i: "volt_init_arduino w Hand s = (up, s1)" by (cases "volt_init_arduino w Hand s")
  from volt_init_lines[OF i] obtain es1 where e1: "trace s1 = trace s @ es1" "set (lines_to Hand es1) \<subseteq> {test_command Hand}" by blast
  show ?thesis
  proof (cases up)
    case False
    with True i assms have "s' = s1" by (simp add: volt_send_to_hand_arduino_def volt_init_hand_arduino_def)
    with e1 show ?thesis by auto
  next
    case up: True
    with True i assms have "volt_write w Hand c s1 = (ok, m, s')"
      by (simp add: volt_send_to_hand_arduino_def volt_init_hand_arduino_def)
    from volt_write_lines[OF this assms(2)] obtain es2 where "trace s' = trace s1 @ es2" "set (lines_to Hand es2) \<subseteq> {c @ [CHR 0x0A]}" by blast
    with e1 have "trace s' = trace s @ (es1 @ es2)" "set (lines_to Hand (es1 @ es2)) \<subseteq> {test_command Hand, c @ [CHR 0x0A]}"
      by (auto simp: lines_to_append)
    then show ?thesis by blast
  qed
qed

subsection \<open>The hand handlers\<close>

lemma volt_set_hand_clamped:
  assumes ip: "int_payload data" and ne: "data \<noteq> []"
  shows "case volt_set_hand w (BodyDict data) s of (r, s') \<Rightarrow> hand_reply_clamped data r (new_events s s')"
proof -
  from int_payload_volt_hand_angles[OF ip] obtain a where a: "volt_hand_angles data = Some a" by blast
  obtain ok m s' where snd: "volt_send_to_hand_arduino w (hand_command a) s = (ok, m, s')"
    by (cases "volt_send_to_hand_arduino w (hand_command a) s")
  from volt_send_hand_lines[OF snd hand_command_no_nl] obtain es where
    es: "trace s' = trace s @ es" "set (lines_to Hand es) \<subseteq> {test_command Hand, hand_command a @ [CHR 0x0A]}"
    by blast
  have r: "volt_set_hand w (BodyDict data) s = ((json_reply 200 (status_of ok) m)\<lparr>angles := Some a\<rparr>, s')"
    using ne a snd by (simp add: volt_set_hand_def)
  have "list_all (\<lambda>l. l = test_command Hand \<or> l = hand_command a @ [CHR 0x0A]) (lines_to Hand es)"
    using es(2) by (auto simp: list_all_iff)
  then show ?thesis
    using r new_events_append[OF es(1)] volt_hand_angles_in_ranges[OF a] volt_hand_angles_saturate[OF a]
    by (simp add: hand_reply_clamped_def json_reply_def)
qed

lemma pi_set_hand_clamped:
  assumes ip: "int_payload data" and ne: "data \<noteq> []"
  shows "case pi_set_hand w (BodyDict data) s of (r, s') \<Rightarrow>
           hand_reply_clamped data r (new_events s s') \<or>
           (http r = 503 \<and> angles r = None \<and> \<not> fst (pi_check_connection w Hand s))"
proof -
  obtain up s1 where c: "pi_check_connection w Hand s = (up, s1)" by (cases "pi_check_connection w Hand s")
  show ?thesis
  proof (cases up)
    case False
    with c show ?thesis by (simp add: pi_set_hand_def json_reply_def)
  next
    case True
    from pi_check_lines[OF c] obtain es1 where e1: "trace s1 = trace s @ es1" "set (lines_to Hand es1) \<subseteq> {test_command Hand}" by blast
    from int_payload_pi_hand_angles[OF ip] obtain a where a: "pi_hand_angles data = Some a" by blast
    obtain ok m s' where snd: "pi_send_to_arduino w Hand (hand_command a) s1 = (ok, m, s')"
      by (cases "pi_send_to_arduino w Hand (hand_command a) s1")
    from pi_send_lines[OF snd hand_command_no_nl] obtain es2 where
      e2: "trace s' = trace s1 @ es2" "set (lines_to Hand es2) \<subseteq> {hand_command a @ [CHR 0x0A]}" by blast
    have r: "pi_set_hand w (BodyDict data) s = ((json_reply 200 (status_of ok) m)\<lparr>angles := Some a\<rparr>, s')"
      using ne a snd c True by (simp add: pi_set_hand_def pi_send_to_hand_arduino_def)
    have t: "trace s' = trace s @ (es1 @ es2)" using e1 e2 by simp
    have "list_all (\<lambda>l. l = test_command Hand \<or> l = hand_command a @ [CHR 0x0A]) (lines_to Hand (es1 @ es2))"
      using e1(2) e2(2) by (auto simp: list_all_iff lines_to_append)
    then show ?thesis
      using r new_events_append[OF t] pi_hand_angles_in_ranges[OF a] pi_hand_angles_saturate[OF a]
      by (simp add: hand_reply_clamped_def json_reply_def)
  qed
qed

subsection \<open>An unavailable device\<close>

lemma pi_init_False: "pi_init_arduino w d s = (False, s') \<Longrightarrow> link_of d s' = NoLink"
  by (auto simp: pi_init_arduino_def Let_def link_defs split: open_result.splits if_splits device.splits)

lemma volt_init_False: "volt_init_arduino w d s = (False, s') \<Longrightarrow> link_of d s' \<noteq> OpenPort"
  by (auto simp: volt_init_arduino_def Let_def link_defs split: open_result.splits if_splits device.splits)

lemma pi_check_unavailable:
  assumes "unavailable pi_init_arduino w d s"
  shows "\<exists>s1. pi_check_connection w d s = (False, s1) \<and> link_of d s1 = NoLink"
proof -
  obtain up s1 where i: "pi_init_arduino w d s = (up, s1)" by (cases "pi_init_arduino w d s")
  with assms have "\<not> up" by (simp add: unavailable_def)
  with i pi_init_False[of w d s s1] assms show ?thesis
    by (simp add: pi_check_connection_def unavailable_def)
qed

lemma pi_set_hand_unavailable:
  assumes "unavailable pi_init_arduino w Hand s"
  shows "case pi_set_hand w b s of (r, s') \<Rightarrow> http r = 503 \<and> status r = ''error'' \<and> hand_arduino s' \<noteq> OpenPort"
  using pi_check_unavailable[OF assms]
  by (auto simp: pi_set_hand_def json_reply_def link_of_def)

lemma pi_set_face_unavailable:
  assumes "unavailable pi_init_arduino w Face s"
  shows "case pi_set_face w b s of (r, s') \<Rightarrow> http r = 503 \<and> status r = ''error'' \<and> face_arduino s' \<noteq> OpenPort"
  using pi_check_unavailable[OF assms]
  by (auto simp: pi_set_face_def json_reply_def link_of_def)

lemma pi_set_face_expression_unavailable:
  assumes "unavailable pi_init_arduino w Face s"
  shows "case pi_set_face_expression w b s of (r, s') \<Rightarrow> http r = 503 \<and> status r = ''error'' \<and> face_arduino s' \<noteq> OpenPort"
  using pi_check_unavailable[OF assms]
  by (auto simp: pi_set_face_expression_def json_reply_def link_of_def)

lemma volt_send_hand_unavailable:
  assumes "unavailable volt_init_arduino w Hand s"
  shows "\<exists>s1. volt_send_to_hand_arduino w c s = (False, MsgNotConnected Hand, s1) \<and> hand_arduino s1 \<noteq> OpenPort"
proof -
  obtain up s1 where i: "volt_init_arduino w Hand s = (up, s1)" by (cases "volt_init_arduino w Hand s")
  with assms have "\<not> up" by (simp add: unavailable_def)
  with i volt_init_False[of w Hand s s1] assms show ?thesis
    by (simp add: volt_send_to_hand_arduino_def volt_init_hand_arduino_def unavailable_def link_of_def)
qed

lemma volt_send_face_unavailable:
  assumes "unavailable volt_init_arduino w Face s"
  shows "\<exists>m s1. volt_send_to_face_arduino w c s = (False, m, s1) \<and> face_arduino s1 \<noteq> OpenPort"
proof -
  obtain up s1 where i: "volt_init_arduino w Face s = (up, s1)" by (cases "volt_init_arduino w Face s")
  with assms have "\<not> up" by (simp add: unavailable_def)
  with i volt_init_False[of w Face s s1] assms show ?thesis
    by (simp add: volt_send_to_face_arduino_def volt_init_face_arduino_def unavailable_def link_of_def)
qed

lemma volt_set_hand_unavailable:
  assumes "unavailable volt_init_arduino w Hand s"
  shows "case volt_set_hand w b s of (r, s') \<Rightarrow>
           (http r = 200 \<or> http r = 400) \<and> status r = ''error'' \<and> hand_arduino s' \<noteq> OpenPort"
proof -
  have n: "hand_arduino s \<noteq> OpenPort" using assms by (simp add: unavailable_def link_of_def)
  show ?thesis
  proof (cases "\<exists>data a. b = BodyDict data \<and> data \<noteq> [] \<and> volt_hand_angles data = Some a")
    case False
    then show ?thesis using n
      by (cases b) (auto simp: volt_set_hand_def json_reply_def split: option.splits)
  next
    case True
    then obtain data a where b: "b = BodyDict data" "data \<noteq> []" "volt_hand_angles data = Some a"
      by blast
    from volt_send_hand_unavailable[OF assms, of "hand_command a"] obtain s1 where
      "volt_send_to_hand_arduino w (hand_command a) s = (False, MsgNotConnected Hand, s1)"
      "hand_arduino s1 \<noteq> OpenPort" by blast
    with b show ?thesis by (simp add: volt_set_hand_def json_reply_def status_of_def)
  qed
qed

lemma volt_set_face_unavailable:
  assumes "unavailable volt_init_arduino w Face s"
  shows "case volt_set_face w b s of (r, s') \<Rightarrow>
           (http r = 200 \<or> http r = 400) \<and> status r = ''error'' \<and> face_arduino s' \<noteq> OpenPort"
proof -
  have n: "face_arduino s \<noteq> OpenPort" using assms by (simp add: unavailable_def link_of_def)
  show ?thesis
  proof (cases "\<exists>data c. b = BodyDict data \<and> data \<noteq> [] \<and> face_command data = Some c \<and> c \<noteq> []")
    case False
    then show ?thesis using n
      by (cases b) (auto simp: volt_set_face_def json_reply_def split: option.splits)
  next
    case True
    then obtain data c where b: "b = BodyDict data" "data \<noteq> []" "face_command data = Some c" "c \<noteq> []"
      by blast
    from volt_send_face_unavailable[OF assms, of "strip c"] obtain m s1 where
      "volt_send_to_face_arduino w (strip c) s = (False, m, s1)"
      "face_arduino s1 \<noteq> OpenPort" by blast
    with b show ?thesis by (simp add: volt_set_face_def json_reply_def status_of_def)
  qed
qed

lemma volt_set_face_expression_unavailable:
  assumes "unavailable volt_init_arduino w Face s"
  shows "case volt_set_face_expression w b s of (r, s') \<Rightarrow>
           (http r = 200 \<or> http r = 400) \<and> status r = ''error'' \<and> face_arduino s' \<noteq> OpenPort"
proof -
  have n: "face_arduino s \<noteq> OpenPort" using assms by (simp add: unavailable_def link_of_def)
  show ?thesis
  proof (cases "\<exists>data e eyes mouth. b = BodyDict data \<and> data \<noteq> [] \<and> expression_name data = Some e
                   \<and> map_of expressions e = Some (eyes, mouth)")
    case False
    then show ?thesis using n
      by (cases b) (auto simp: volt_set_face_expression_def json_reply_def split: option.splits)
  next
    case True
    then obtain data e eyes mouth where b: "b = BodyDict data" "data \<noteq> []"
      "expression_name data = Some e" "map_of expressions e = Some (eyes, mouth)"
      by blast
    from volt_send_face_unavailable[OF assms, of "''E'' @ str_int eyes @ '' M'' @ str_int mouth"]
    obtain m s1 where
      "volt_send_to_face_arduino w (''E'' @ str_int eyes @ '' M'' @ str_int mouth) s = (False, m, s1)"
      "face_arduino s1 \<noteq> OpenPort" by blast
    with b show ?thesis by (simp add: volt_set_face_expression_def json_reply_def status_of_def)
  qed
qed

subsection \<open>Write errors\<close>

lemma volt_write_error:
  assumes "\<not> serial_write w d (now s)"
  shows "\<exists>s'. volt_write w d c s = (False, MsgSendError, s') \<and> link_of d s' = NoLink"
  using assms by (cases d) (simp_all add: volt_write_def Let_def link_defs)

lemma pi_send_error:
  assumes "link_of d s = OpenPort" "\<not> serial_write w d (now s)"
  shows "\<exists>s'. pi_send_to_arduino w d c s = (False, MsgSendError, s') \<and> link_of d s' = OpenPort"
  using assms by (cases d) (simp_all add: pi_send_to_arduino_def Let_def link_defs)

subsection \<open>The two servers side by side\<close>

lemma pi_init_True: "pi_init_arduino w d s = (True, s') \<Longrightarrow> link_of d s' = OpenPort"
  by (auto simp: pi_init_arduino_def Let_def link_defs split: open_result.splits if_splits device.splits)

lemma lines_to_simps:
  "lines_to d [] = []"
  "lines_to d (Write d' l ok # es) = (if d' = d then l # lines_to d es else lines_to d es)"
  "lines_to d (Read d' ok # es) = lines_to d es"
  "lines_to d (Connect d' r # es) = lines_to d es"
  "lines_to d (Close d' # es) = lines_to d es"
  "lines_to d (Release ok # es) = lines_to d es"
  by (simp_all add: lines_to_def)

lemma send_side_by_side:
  assumes c: "pi_check_connection w d s = (True, s1)"
    and p: "pi_send_to_arduino w d c s1 = (ok, m, s2)"
    and v: "(ok', m', s2') =
              (if link_of d s = OpenPort then volt_write w d c s
               else case volt_init_arduino w d s of
                      (False, t) \<Rightarrow> (False, m0, t)
                    | (True, t) \<Rightarrow> volt_write w d c t)"
  shows "take (length (lines_to d (new_events s s2'))) (lines_to d (new_events s s2)) =
           lines_to d (new_events s s2') \<and>
         (link_of d s = OpenPort \<longrightarrow>
            lines_to d (new_events s s2) = lines_to d (new_events s s2') \<and>
            (answer_read w d s \<longrightarrow> ok' = ok \<and> m' = m))"
  using c p v
  by (cases d)
     (auto simp: pi_check_connection_def pi_init_arduino_def pi_send_to_arduino_def volt_write_def
        volt_init_arduino_def answer_read_def new_events_def Let_def link_defs lines_to_simps
        split: if_splits open_result.splits)


lemma volt_send_hand_form:
  "volt_send_to_hand_arduino w c s =
     (if link_of Hand s = OpenPort then volt_write w Hand c s
      else case volt_init_arduino w Hand s of
             (False, t) \<Rightarrow> (False, MsgNotConnected Hand, t)
           | (True, t) \<Rightarrow> volt_write w Hand c t)"
  by (simp add: volt_send_to_hand_arduino_def volt_init_hand_arduino_def link_of_def)

lemma volt_send_face_form:
  "volt_send_to_face_arduino w c s =
     (if link_of Face s = OpenPort then volt_write w Face c s
      else case volt_init_arduino w Face s of
             (False, t) \<Rightarrow>
               (False, if face_arduino s = NoLink then MsgNotInitialised else MsgNotConnected Face, t)
           | (True, t) \<Rightarrow> volt_write w Face c t)"
  by (simp add: volt_send_to_face_arduino_def volt_init_face_arduino_def link_of_def)

lemma usable_check:
  assumes "usable w d s"
  shows "\<exists>s1. pi_check_connection w d s = (True, s1) \<and> (link_of d s = OpenPort \<longrightarrow> s1 = s)"
proof (cases "link_of d s = OpenPort")
  case True
  then show ?thesis by (simp add: pi_check_connection_def)
next
  case False
  with assms have "fst (pi_init_arduino w d s)" by (simp add: usable_def)
  then obtain s1 where i: "pi_init_arduino w d s = (True, s1)" by (cases "pi_init_arduino w d s") auto
  with False show ?thesis by (simp add: pi_check_connection_def)
qed

lemma refused_agree:
  assumes "pi_check_connection w d s = (True, s1)" "link_of d s = OpenPort \<longrightarrow> s1 = s"
  shows "agree_on w d s (r, s1) (r, s)"
  using assms by (auto simp: agree_on_def same_answer_def new_events_def lines_to_simps)

lemma sent_agree:
  assumes c: "pi_check_connection w d s = (True, s1)"
    and p: "pi_send_to_arduino w d c s1 = (ok, m, s2)"
    and v: "(ok', m', s2') =
              (if link_of d s = OpenPort then volt_write w d c s
               else case volt_init_arduino w d s of
                      (False, t) \<Rightarrow> (False, m0, t)
                    | (True, t) \<Rightarrow> volt_write w d c t)"
    and r: "same_answer r r'" "ok' = ok \<and> m' = m \<longrightarrow> r = r'"
  shows "agree_on w d s (r, s2) (r', s2')"
  using send_side_by_side[OF c p v] r by (simp add: agree_on_def)

lemma get_int_present: "map_of data k \<noteq> None \<Longrightarrow> get_int data k d = get_int data k d'"
  by (auto simp: get_int_def)

lemma hand_angles_agree:
  assumes "map_of data ''f4'' \<noteq> None" "map_of data ''f5'' \<noteq> None"
  shows "pi_hand_angles data = volt_hand_angles data"
  unfolding pi_hand_angles_def volt_hand_angles_def
  using get_int_present[OF assms(1), of 0 180] get_int_present[OF assms(2), of 0 180] by simp

lemma set_hand_agree:
  assumes u: "usable w Hand s" and f: "supplies_f4_f5 b"
  shows "agree_on w Hand s (pi_set_hand w b s) (volt_set_hand w b s)"
proof -
  from usable_check[OF u] obtain s1 where c: "pi_check_connection w Hand s = (True, s1)"
    and same: "link_of Hand s = OpenPort \<longrightarrow> s1 = s" by blast
  show ?thesis
  proof (cases "\<exists>data a. b = BodyDict data \<and> data \<noteq> [] \<and> pi_hand_angles data = Some a")
    case False
    moreover have "\<And>data. b = BodyDict data \<Longrightarrow> data \<noteq> [] \<Longrightarrow> volt_hand_angles data = pi_hand_angles data"
      using f hand_angles_agree by (auto simp: supplies_f4_f5_def)
    ultimately have "\<exists>r. pi_set_hand w b s = (r, s1) \<and> volt_set_hand w b s = (r, s)"
      using c by (cases b) (auto simp: pi_set_hand_def volt_set_hand_def split: option.splits)
    then show ?thesis using refused_agree[OF c same] by auto
  next
    case True
    then obtain data a where b: "b = BodyDict data" "data \<noteq> []" "pi_hand_angles data = Some a" by blast
    with f hand_angles_agree[of data] have va: "volt_hand_angles data = Some a"
      by (simp add: supplies_f4_f5_def)
    obtain ok m s2 where p: "pi_send_to_arduino w Hand (hand_command a) s1 = (ok, m, s2)"
      by (cases "pi_send_to_arduino w Hand (hand_command a) s1")
    obtain ok' m' s2' where v: "volt_send_to_hand_arduino w (hand_command a) s = (ok', m', s2')"
      by (cases "volt_send_to_hand_arduino w (hand_command a) s")
    have "agree_on w Hand s ((json_reply 200 (status_of ok) m)\<lparr>angles := Some a\<rparr>, s2)
            ((json_reply 200 (status_of ok') m')\<lparr>angles := Some a\<rparr>, s2')"
      by (rule sent_agree[OF c p v[symmetric, unfolded volt_send_hand_form]])
         (simp_all add: same_answer_def json_reply_def)
    then show ?thesis using b va c p v
      by (simp add: pi_set_hand_def volt_set_hand_def pi_send_to_hand_arduino_def)
  qed
qed

lemma set_face_agree:
  assumes u: "usable w Face s"
  shows "agree_on w Face s (pi_set_face w b s) (volt_set_face w b s)"
proof -
  from usable_check[OF u] obtain s1 where c: "pi_check_connection w Face s = (True, s1)"
    and same: "link_of Face s = OpenPort \<longrightarrow> s1 = s" by blast
  show ?thesis
  proof (cases "\<exists>data cmd. b = BodyDict data \<and> data \<noteq> [] \<and> face_command data = Some cmd \<and> cmd \<noteq> []")
    case False
    then have "\<exists>r. pi_set_face w b s = (r, s1) \<and> volt_set_face w b s = (r, s)"
      using c by (cases b) (auto simp: pi_set_face_def volt_set_face_def split: option.splits)
    then show ?thesis using refused_agree[OF c same] by auto
  next
    case True
    then obtain data cmd where b: "b = BodyDict data" "data \<noteq> []" "face_command data = Some cmd" "cmd \<noteq> []"
      by blast
    obtain ok m s2 where p: "pi_send_to_arduino w Face (strip cmd) s1 = (ok, m, s2)"
      by (cases "pi_send_to_arduino w Face (strip cmd) s1")
    obtain ok' m' s2' where v: "volt_send_to_face_arduino w (strip cmd) s = (ok', m', s2')"
      by (cases "volt_send_to_face_arduino w (strip cmd) s")
    have "agree_on w Face s (json_reply 200 (status_of ok) m, s2)
            (json_reply 200 (status_of ok') m', s2')"
      by (rule sent_agree[OF c p v[symmetric, unfolded volt_send_face_form]])
         (simp_all add: same_answer_def json_reply_def)
    then show ?thesis using b c p v
      by (simp add: pi_set_face_def volt_set_face_def pi_send_to_face_arduino_def)
  qed
qed

lemma set_face_expression_agree:
  assumes u: "usable w Face s"
  shows "agree_on w Face s (pi_set_face_expression w b s) (volt_set_face_expression w b s)"
proof -
  from usable_check[OF u] obtain s1 where c: "pi_check_connection w Face s = (True, s1)"
    and same: "link_of Face s = OpenPort \<longrightarrow> s1 = s" by blast
  show ?thesis
  proof (cases "\<exists>data e eyes mouth. b = BodyDict data \<and> data \<noteq> [] \<and> expression_name data = Some e
                   \<and> map_of expressions e = Some (eyes, mouth)")
    case False
    then have "\<exists>r. pi_set_face_expression w b s = (r, s1) \<and> volt_set_face_expression w b s = (r, s)"
      using c by (cases b) (auto simp: pi_set_face_expression_def volt_set_face_expression_def
                          split: option.splits)
    then show ?thesis using refused_agree[OF c same] by auto
  next
    case True
    then obtain data e eyes mouth where b: "b = BodyDict data" "data \<noteq> []"
      "expression_name data = Some e" "map_of expressions e = Some (eyes, mouth)" by blast
    let ?c = "''E'' @ str_int eyes @ '' M'' @ str_int mouth"
    obtain ok m s2 where p: "pi_send_to_arduino w Face ?c s1 = (ok, m, s2)"
      by (cases "pi_send_to_arduino w Face ?c s1")
    obtain ok' m' s2' where v: "volt_send_to_face_arduino w ?c s = (ok', m', s2')"
      by (cases "volt_send_to_face_arduino w ?c s")
    have "agree_on w Face s ((json_reply 200 (status_of ok) m)\<lparr>expression := Some e\<rparr>, s2)
            ((json_reply 200 (status_of ok') m')\<lparr>expression := Some e\<rparr>, s2')"
      by (rule sent_agree[OF c p v[symmetric, unfolded volt_send_face_form]])
         (simp_all add: same_answer_def json_reply_def)
    then show ?thesis using b c p v
      by (simp add: pi_set_face_expression_def volt_set_face_expression_def pi_send_to_face_arduino_def)
  qed
qed

subsection \<open>Requests that fail validation\<close>

lemma volt_set_hand_refused:
  "hand_refused volt_hand_angles b \<Longrightarrow>
   http (fst (volt_set_hand w b s)) = 400 \<and> snd (volt_set_hand w b s) = s"
  by (cases b) (auto simp: hand_refused_def volt_set_hand_def json_reply_def)

lemma volt_set_face_refused:
  "face_refused b \<Longrightarrow> http (fst (volt_set_face w b s)) = 400 \<and> snd (volt_set_face w b s) = s"
  by (cases b) (auto simp: face_refused_def volt_set_face_def json_reply_def)

lemma volt_set_face_expression_refused:
  "expression_refused b \<Longrightarrow>
   http (fst (volt_set_face_expression w b s)) = 400 \<and> snd (volt_set_face_expression w b s) = s"
  by (cases b)
     (auto simp: expression_refused_def volt_set_face_expression_def json_reply_def split: option.splits)

lemma pi_check_cases:
  "pi_check_connection w d s =
     (if link_of d s = OpenPort then (True, s) else pi_init_arduino w d s)"
  by (simp add: pi_check_connection_def)

lemma pi_set_hand_refused:
  assumes "hand_refused pi_hand_angles b"
  shows "pi_refusal w Hand s (pi_set_hand w b s)"
proof -
  obtain up s1 where i: "pi_init_arduino w Hand s = (up, s1)" by (cases "pi_init_arduino w Hand s")
  show ?thesis using assms i
    by (cases b; cases up)
       (auto simp: hand_refused_def pi_refusal_def pi_set_hand_def pi_check_cases json_reply_def)
qed

lemma pi_set_face_refused:
  assumes "face_refused b"
  shows "pi_refusal w Face s (pi_set_face w b s)"
proof -
  obtain up s1 where i: "pi_init_arduino w Face s = (up, s1)" by (cases "pi_init_arduino w Face s")
  show ?thesis using assms i
    by (cases b; cases up)
       (auto simp: face_refused_def pi_refusal_def pi_set_face_def pi_check_cases json_reply_def)
qed

lemma pi_set_face_expression_refused:
  assumes "expression_refused b"
  shows "pi_refusal w Face s (pi_set_face_expression w b s)"
proof -
  obtain up s1 where i: "pi_init_arduino w Face s = (up, s1)" by (cases "pi_init_arduino w Face s")
  show ?thesis using assms i
    by (cases b; cases up)
       (auto simp: expression_refused_def pi_refusal_def pi_set_face_expression_def pi_check_cases
          json_reply_def split: option.splits)
qed

subsection \<open>\<^verbatim>\<open>/status\<close>\<close>









subsection \<open>The face translator\<close>

lemma dropWhile_id: "s = [] \<or> \<not> P (hd s) \<Longrightarrow> dropWhile P s = s"
  by (cases s) auto

lemma strip_id:
  assumes "s \<noteq> []" "\<not> is_space (hd s)" "\<not> is_space (last s)"
  shows "strip s = s"
proof -
  have "dropWhile is_space s = s" using assms by (simp add: dropWhile_id)
  moreover have "dropWhile is_space (rev s) = rev s"
    using assms by (intro dropWhile_id) (simp add: hd_rev)
  ultimately show ?thesis by (simp add: strip_def)
qed

lemma strip_trailing_space:
  assumes "s \<noteq> []" "\<not> is_space (hd s)" "\<not> is_space (last s)"
  shows "strip (s @ '' '') = s"
proof -
  have "dropWhile is_space (s @ '' '') = s @ '' ''" using assms by (intro dropWhile_id) simp
  moreover have "dropWhile is_space (rev (s @ '' '')) = rev s"
    using assms dropWhile_id[of "rev s" is_space] by (simp add: is_space_def hd_rev)
  ultimately show ?thesis by (simp add: strip_def)
qed

lemma digit_char_not_space: "\<not> is_space (digit_char n)"
  using digit_char_in[of n] by (auto simp: is_space_def)

lemma last_str_int_not_space: "\<not> is_space (last (str_int i))"
  by (simp add: last_str_int digit_char_not_space)

lemma token_strip:
  "strip (c # str_int i) = c # str_int i" if "\<not> is_space c"
  using that by (intro strip_id) (simp_all add: str_int_nonempty last_str_int_not_space)

lemma token_space_strip:
  "strip (c # str_int i @ '' '') = c # str_int i" if "\<not> is_space c"
  using that strip_trailing_space[of "c # str_int i"]
  by (simp add: str_int_nonempty last_str_int_not_space)

lemma two_tokens_strip:
  "strip (c # str_int i @ '' '' @ c' # str_int j) = c # str_int i @ '' '' @ c' # str_int j"
  if "\<not> is_space c"
  using that by (intro strip_id) (simp_all add: str_int_nonempty last_str_int_not_space)

lemma item_int_JInt: "map_of data k = Some (JInt i) \<Longrightarrow> item_int data k = Some i"
  by (simp add: item_int_def)

lemma face_command_fields:
  assumes "face_fields data eyes mouth"
  shows "\<exists>c. face_command data = Some c \<and> c \<noteq> [] \<and> strip c = spec_face_command eyes mouth"
proof (cases eyes)
  case None
  with assms obtain m where m: "mouth = Some m" by (auto simp: face_fields_def)
  with None assms show ?thesis
    by (simp add: face_fields_def face_command_def item_int_def spec_face_command_def clamp_def
        EYE_MIN_def EYE_MAX_def MOUTH_MIN_def MOUTH_MAX_def token_strip is_space_def min.commute)
next
  case (Some e)
  show ?thesis
  proof (cases mouth)
    case None
    with Some assms show ?thesis
      by (simp add: face_fields_def face_command_def item_int_def spec_face_command_def clamp_def
          EYE_MIN_def EYE_MAX_def MOUTH_MIN_def MOUTH_MAX_def token_space_strip is_space_def min.commute)
  next
    case (Some m)
    with \<open>eyes = Some e\<close> assms show ?thesis
      using two_tokens_strip[of "CHR ''E''" "clamp 70 110 e" "CHR ''M''" "clamp 0 80 m"]
      by (simp add: face_fields_def face_command_def item_int_def spec_face_command_def clamp_def
          EYE_MIN_def EYE_MAX_def MOUTH_MIN_def MOUTH_MAX_def is_space_def min.commute)
  qed
qed

lemma spec_face_command_no_nl:
  "eyes \<noteq> None \<or> mouth \<noteq> None \<Longrightarrow> \<not> endswith_nl (spec_face_command eyes mouth)"
  by (cases eyes; cases mouth)
     (simp_all add: spec_face_command_def endswith_nl_def str_int_nonempty last_str_int digit_char_not_nl)

subsection \<open>Lines sent to the face\<close>

lemma volt_write_trace:
  assumes "volt_write w d c s = (ok, m, s')"
  shows "\<exists>es. trace s' = trace s @ es \<and>
           (es = [Write d (if endswith_nl c then c else c @ [CHR 0x0A]) False] \<or>
            es = [Write d (if endswith_nl c then c else c @ [CHR 0x0A]) True, Read d True] \<or>
            es = [Write d (if endswith_nl c then c else c @ [CHR 0x0A]) True, Read d False])"
  using assms by (cases d) (auto simp: volt_write_def Let_def link_defs split: if_splits)

lemma pi_send_trace:
  "link_of d s = OpenPort \<Longrightarrow> pi_send_to_arduino w d c s = (ok, m, s') \<Longrightarrow>
   trace s' = trace s @ [Write d (if endswith_nl c then c else c @ [CHR 0x0A]) ok]"
  by (cases d) (auto simp: pi_send_to_arduino_def Let_def link_defs split: if_splits)

lemma sent_asI:
  assumes "trace s' = trace s @ es" "set (lines_to d es) \<subseteq> {test_command d, line}"
    "link_of d s = OpenPort \<longrightarrow>
       es = [Write d line True] \<or> es = [Write d line False] \<or>
       es = [Write d line True, Read d True] \<or> es = [Write d line True, Read d False]"
  shows "sent_as d line s 200 s'"
  using assms new_events_append[OF assms(1)]
  by (auto simp: sent_as_def list_all_iff)

lemma lines_to_write: "lines_to d [Write d l ok] = [l]"
  by (simp add: lines_to_def)

lemma volt_send_face_sent:
  assumes "volt_send_to_face_arduino w c s = (ok, m, s')"
  shows "sent_as Face (if endswith_nl c then c else c @ [CHR 0x0A]) s 200 s'"
proof (cases "face_arduino s = OpenPort")
  case True
  with assms have "volt_write w Face c s = (ok, m, s')" by (simp add: volt_send_to_face_arduino_def)
  from volt_write_trace[OF this] obtain es where "trace s' = trace s @ es"
     "es = [Write Face (if endswith_nl c then c else c @ [CHR 0x0A]) False] \<or>
      es = [Write Face (if endswith_nl c then c else c @ [CHR 0x0A]) True, Read Face True] \<or>
      es = [Write Face (if endswith_nl c then c else c @ [CHR 0x0A]) True, Read Face False]" by blast
  then show ?thesis
    by (intro sent_asI[where es = es]) (auto simp: lines_to_simps)
next
  case False
  obtain up s1 where i: "volt_init_arduino w Face s = (up, s1)" by (cases "volt_init_arduino w Face s")
  from volt_init_lines[OF i] obtain es1 where
    e1: "trace s1 = trace s @ es1" "set (lines_to Face es1) \<subseteq> {test_command Face}" by blast
  show ?thesis
  proof (cases up)
    case False
    with \<open>face_arduino s \<noteq> OpenPort\<close> i assms have "s' = s1"
      by (auto simp: volt_send_to_face_arduino_def volt_init_face_arduino_def split: if_splits)
    with e1 \<open>face_arduino s \<noteq> OpenPort\<close> show ?thesis
      by (intro sent_asI[where es = es1]) (auto simp: link_of_def)
  next
    case True
    with \<open>face_arduino s \<noteq> OpenPort\<close> i assms have "volt_write w Face c s1 = (ok, m, s')"
      by (auto simp: volt_send_to_face_arduino_def volt_init_face_arduino_def split: if_splits)
    from volt_write_trace[OF this] obtain es where es: "trace s' = trace s1 @ es"
     "es = [Write Face (if endswith_nl c then c else c @ [CHR 0x0A]) False] \<or>
      es = [Write Face (if endswith_nl c then c else c @ [CHR 0x0A]) True, Read Face True] \<or>
      es = [Write Face (if endswith_nl c then c else c @ [CHR 0x0A]) True, Read Face False]" by blast
    with e1 \<open>face_arduino s \<noteq> OpenPort\<close> show ?thesis
      by (intro sent_asI[where es = "es1 @ es"])
         (auto simp: link_of_def lines_to_append lines_to_simps)
  qed
qed

lemma pi_dispatch_sent:
  assumes "pi_check_connection w d s = (True, s1)" "pi_send_to_arduino w d c s1 = (ok, m, s')"
  shows "sent_as d (if endswith_nl c then c else c @ [CHR 0x0A]) s 200 s'"
proof -
  from pi_check_lines[OF assms(1)] obtain es1 where
    e1: "trace s1 = trace s @ es1" "set (lines_to d es1) \<subseteq> {test_command d}" by blast
  have o: "link_of d s1 = OpenPort"
    using assms(1) pi_init_True[of w d s s1] by (auto simp: pi_check_connection_def split: if_splits)
  have same: "link_of d s = OpenPort \<longrightarrow> es1 = []"
    using assms(1) e1(1) by (auto simp: pi_check_connection_def)
  from pi_send_trace[OF o assms(2)] e1 same show ?thesis
    by (intro sent_asI[where es = "es1 @ [Write d (if endswith_nl c then c else c @ [CHR 0x0A]) ok]"])
       (auto simp: lines_to_append lines_to_write)
qed

subsection \<open>The face handlers\<close>

lemma face_fields_nonempty: "face_fields data eyes mouth \<Longrightarrow> data \<noteq> []"
  by (auto simp: face_fields_def)

lemma volt_set_face_sent:
  assumes "face_fields data eyes mouth"
  shows "case volt_set_face w (BodyDict data) s of
           (r, s') \<Rightarrow> sent_as Face (spec_face_command eyes mouth @ [CHR 0x0A]) s (http r) s'"
proof -
  from face_command_fields[OF assms] obtain c where
    c: "face_command data = Some c" "c \<noteq> []" "strip c = spec_face_command eyes mouth" by blast
  have n: "\<not> endswith_nl (strip c)"
    using assms c(3) spec_face_command_no_nl[of eyes mouth] by (simp add: face_fields_def)
  obtain ok m s' where snd: "volt_send_to_face_arduino w (strip c) s = (ok, m, s')"
    by (cases "volt_send_to_face_arduino w (strip c) s")
  from volt_send_face_sent[OF snd] n c(3)
  have "sent_as Face (spec_face_command eyes mouth @ [CHR 0x0A]) s 200 s'" by simp
  then show ?thesis using c snd face_fields_nonempty[OF assms]
    by (simp add: volt_set_face_def json_reply_def)
qed

lemma pi_set_face_sent:
  assumes "face_fields data eyes mouth"
  shows "case pi_set_face w (BodyDict data) s of
           (r, s') \<Rightarrow> sent_as Face (spec_face_command eyes mouth @ [CHR 0x0A]) s (http r) s' \<or>
                      (http r = 503 \<and> \<not> fst (pi_check_connection w Face s))"
proof -
  from face_command_fields[OF assms] obtain c where
    c: "face_command data = Some c" "c \<noteq> []" "strip c = spec_face_command eyes mouth" by blast
  have n: "\<not> endswith_nl (strip c)"
    using assms c(3) spec_face_command_no_nl[of eyes mouth] by (simp add: face_fields_def)
  obtain up s1 where ch: "pi_check_connection w Face s = (up, s1)"
    by (cases "pi_check_connection w Face s")
  show ?thesis
  proof (cases up)
    case False
    with ch show ?thesis by (simp add: pi_set_face_def json_reply_def)
  next
    case True
    obtain ok m s' where snd: "pi_send_to_arduino w Face (strip c) s1 = (ok, m, s')"
      by (cases "pi_send_to_arduino w Face (strip c) s1")
    from True ch have ch': "pi_check_connection w Face s = (True, s1)" by simp
    from pi_dispatch_sent[OF ch' snd] n c(3)
    have "sent_as Face (spec_face_command eyes mouth @ [CHR 0x0A]) s 200 s'" by simp
    then show ?thesis using c snd ch True face_fields_nonempty[OF assms]
      by (simp add: pi_set_face_def json_reply_def pi_send_to_face_arduino_def)
  qed
qed

lemma neither_field_refused:
  "map_of data ''eyes'' = None \<Longrightarrow> map_of data ''mouth'' = None \<Longrightarrow> face_refused (BodyDict data)"
  by (simp add: face_refused_def face_command_def)

subsection \<open>\<^verbatim>\<open>/face_look\<close>\<close>

lemma set_str_int: "set (str_int i) \<subseteq> set ''-0123456789''"
proof -
  have "set (str_nat n) \<subseteq> set ''-0123456789''" for n
    using set_str_nat[of n] by (rule subset_trans) (simp add: subset_iff)
  then show ?thesis by (simp add: str_int_def)
qed

lemma no_M_in_str_int: "CHR ''M'' \<notin> set (str_int i)"
proof
  assume "CHR ''M'' \<in> set (str_int i)"
  with set_str_int[of i] have "CHR ''M'' \<in> set ''-0123456789''" by (rule subsetD)
  then show False by simp
qed

lemma look_command_no_M: "CHR ''M'' \<notin> set (look_command pan tilt)"
  by (simp add: look_command_def no_M_in_str_int)

lemma look_command_nl: "endswith_nl (look_command pan tilt)"
  by (simp add: look_command_def endswith_nl_def)

lemma volt_send_face_no_hand_lines:
  assumes "volt_send_to_face_arduino w c s = (ok, m, s')"
  shows "lines_to Hand (new_events s s') = []"
  using assms
  by (auto simp: volt_send_to_face_arduino_def volt_init_face_arduino_def volt_write_def
        volt_init_arduino_def new_events_def Let_def link_defs lines_to_simps
        split: if_splits open_result.splits)

lemma volt_send_face_look_lines:
  assumes "volt_send_to_face_arduino w c s = (ok, m, s')" "endswith_nl c"
  shows "look_lines w s c (lines_to Face (new_events s s'))"
  using assms
  by (auto simp: volt_send_to_face_arduino_def volt_init_face_arduino_def volt_write_def
        volt_init_arduino_def look_lines_def new_events_def Let_def link_defs lines_to_simps
        split: if_splits open_result.splits)


lemma face_look_cases:
  "face_look w b s = (None, s) \<or>
   (\<exists>pan tilt ok m s'. volt_send_to_face_arduino w (look_command pan tilt) s = (ok, m, s') \<and>
      face_look w b s = (Some ((json_reply 200 (status_of ok) m)\<lparr>look := Some (pan, tilt)\<rparr>), s'))"
proof -
  let ?data = "case b of BodyError \<Rightarrow> None | BodyOther quiet \<Rightarrow> None | BodyFalsy \<Rightarrow> Some []
                    | BodyDict data \<Rightarrow> Some data"
  show ?thesis
  proof (cases ?data)
    case None
    then show ?thesis by (simp add: face_look_def)
  next
    case (Some data)
    show ?thesis
    proof (cases "get_int data ''x'' 320")
      case None
      with Some show ?thesis by (simp add: face_look_def)
    next
      case x: (Some x)
      show ?thesis
      proof (cases "get_int data ''y'' 240")
        case None
        with Some x show ?thesis by (simp add: face_look_def)
      next
        case y: (Some y)
        show ?thesis
        proof (cases "face_to_servo (fl w) x y 640 480")
          case None
          with Some x y show ?thesis by (simp add: face_look_def)
        next
          case pt: (Some pt)
          obtain pan tilt where p: "pt = (pan, tilt)" by (cases pt)
          obtain ok m s' where snd: "volt_send_to_face_arduino w (look_command pan tilt) s = (ok, m, s')"
            by (cases "volt_send_to_face_arduino w (look_command pan tilt) s")
          with Some x y pt p have
            "face_look w b s = (Some ((json_reply 200 (status_of ok) m)\<lparr>look := Some (pan, tilt)\<rparr>), s')"
            by (simp add: face_look_def)
          with snd show ?thesis by blast
        qed
      qed
    qed
  qed
qed


lemma dbl_overflow_big: "(2::rat) ^ 1000 < dbl_overflow"
proof -
  have "(2::rat) ^ 1000 + 2 ^ 970 \<le> 2 ^ 1000 + 2 ^ 1000"
    by (intro add_left_mono power_increasing) simp_all
  also have "\<dots> = 2 ^ 1001" by simp
  also have "\<dots> < 2 ^ 1024" by (intro power_strict_increasing) simp_all
  finally show ?thesis by (simp add: dbl_overflow_def)
qed

lemma small_below_overflow: "\<bar>q\<bar> \<le> 2 ^ 1000 \<Longrightarrow> \<not> dbl_overflow \<le> \<bar>q::rat\<bar>"
  using dbl_overflow_big by linarith

lemma face_to_servo_exact_corner: "face_to_servo (\<lambda>v. v) 0 480 640 480 = Some (110, 100)"
proof -
  have a: "py_truediv (\<lambda>v. v) 0 640 = Some 0"
    using small_below_overflow[of 0] by (simp add: py_truediv_def)
  have b: "py_truediv (\<lambda>v. v) 480 480 = Some 1"
    using small_below_overflow[of 1] by (simp add: py_truediv_def)
  have c: "py_round 110 = 110" "py_round 100 = 100" by (simp_all add: py_round_def)
  show ?thesis
    by (simp add: face_to_servo_def a b c EYE_PAN_MIN_def EYE_PAN_MAX_def EYE_TILT_MIN_def
        EYE_TILT_MAX_def)
qed


subsection \<open>Rounding errors in \<^verbatim>\<open>face_to_servo\<close>\<close>

lemma py_round_near: "\<bar>of_int (py_round v) - v\<bar> \<le> 1 / 2"
proof -
  have "of_int \<lfloor>v\<rfloor> \<le> v" "v < of_int \<lfloor>v\<rfloor> + 1" by linarith+
  then show ?thesis by (auto simp: py_round_def Let_def)
qed


lemma tiny_power: "(1::rat) / 2 ^ 1075 \<le> 1 / 2 ^ 45"
proof -
  have "(2::rat) ^ 45 \<le> 2 ^ 1075" by (rule power_increasing) simp_all
  then show ?thesis by (intro divide_left_mono mult_pos_pos zero_less_power) simp_all
qed

lemma small_in_range: "\<bar>v\<bar> \<le> 256 \<Longrightarrow> \<bar>v::rat\<bar> < dbl_overflow"
proof -
  assume a: "\<bar>v\<bar> \<le> 256"
  have "(256::rat) = 2 ^ 8" by simp
  also have "\<dots> \<le> 2 ^ 1000" by (rule power_increasing) simp_all
  finally show ?thesis using a dbl_overflow_big by linarith
qed

lemma rounding_abs:
  assumes "binary64_rounding r" "\<bar>v\<bar> \<le> 256"
  shows "\<bar>r v - v\<bar> \<le> 1 / 2 ^ 44"
proof -
  from assms(1) small_in_range[OF assms(2)]
  have "\<bar>r v - v\<bar> \<le> \<bar>v\<bar> / 2 ^ 53 + 1 / 2 ^ 1075"
    by (simp only: binary64_rounding_def)
  moreover have "\<bar>v\<bar> / 2 ^ 53 \<le> 256 / 2 ^ 53" using assms(2) by (intro divide_right_mono) simp_all
  moreover have "(256::rat) / 2 ^ 53 + 1 / 2 ^ 45 = 1 / 2 ^ 44" by simp
  ultimately show ?thesis using tiny_power by linarith
qed


lemma rounding_rel:
  assumes "binary64_rounding r" "\<bar>v\<bar> < dbl_overflow"
  shows "\<bar>r v - v\<bar> \<le> \<bar>v\<bar> / 2 ^ 53 + 1 / 2 ^ 1075"
  using assms by (simp only: binary64_rounding_def)

lemma rounding_low:
  assumes "binary64_rounding r" "\<bar>v\<bar> < dbl_overflow" "v \<le> 0"
  shows "r v \<le> 1 / 2 ^ 44"
proof -
  have "0 \<le> \<bar>v\<bar> - \<bar>v\<bar> / 2 ^ 53"
    by (simp add: field_simps)
  with rounding_rel[OF assms(1,2)] assms(3) have "r v \<le> 1 / 2 ^ 1075" by linarith
  moreover have "(1::rat) / 2 ^ 45 \<le> 1 / 2 ^ 44" by simp
  ultimately show ?thesis using tiny_power by linarith
qed

lemma rounding_high:
  assumes "binary64_rounding r" "\<bar>v\<bar> < dbl_overflow" "1 \<le> v"
  shows "1 - 1 / 2 ^ 44 \<le> r v"
proof -
  have "1 - 1 / 2 ^ 53 \<le> v - v / 2 ^ 53"
  proof -
    have "(1 - 1 / 2 ^ 53) * 1 \<le> (1 - 1 / 2 ^ 53) * v"
      using assms(3) by (intro mult_left_mono) simp_all
    then show ?thesis by (simp add: algebra_simps)
  qed
  moreover have "\<bar>v\<bar> = v" using assms(3) by simp
  moreover have "(1::rat) / 2 ^ 53 + 1 / 2 ^ 45 \<le> 1 / 2 ^ 44" by simp
  ultimately show ?thesis using rounding_rel[OF assms(1,2)] tiny_power by linarith
qed

lemma clamp01_round:
  assumes "binary64_rounding r" "\<bar>v\<bar> < dbl_overflow"
  shows "\<bar>max 0 (min 1 (r v)) - max 0 (min 1 v)\<bar> \<le> 1 / 2 ^ 44"
proof -
  define \<delta> :: rat where "\<delta> = 1 / 2 ^ 44"
  have d: "0 \<le> \<delta>" by (simp add: \<delta>_def)
  consider "v \<le> 0" | "0 < v" "v < 1" | "1 \<le> v" by linarith
  then have "\<bar>max 0 (min 1 (r v)) - max 0 (min 1 v)\<bar> \<le> \<delta>"
  proof cases
    case 1
    from rounding_low[OF assms this, folded \<delta>_def] 1 d show ?thesis by linarith
  next
    case 2
    then have "\<bar>v\<bar> \<le> 256" by linarith
    from rounding_abs[OF assms(1) this, folded \<delta>_def] 2 d show ?thesis by linarith
  next
    case 3
    from rounding_high[OF assms this, folded \<delta>_def] 3 d show ?thesis by linarith
  qed
  then show ?thesis by (simp only: \<delta>_def)
qed

lemma pan_error:
  assumes b: "binary64_rounding r" and n: "0 \<le> nx" "nx \<le> 1" "\<bar>nx - c\<bar> \<le> 1 / 2 ^ 44"
  shows "\<bar>r (70 + r (r (1 - nx) * 40)) - (70 + (1 - c) * 40)\<bar> \<le> 82 / 2 ^ 44"
proof -
  define \<delta> :: rat where "\<delta> = 1 / 2 ^ 44"
  have d: "0 \<le> \<delta>" "\<delta> \<le> 1 / 1000" by (simp_all add: \<delta>_def)
  note ra = rounding_abs[OF b, folded \<delta>_def]
  note nc = n(3)[folded \<delta>_def]
  define a where "a = r (1 - nx)"
  define bb where "bb = r (a * 40)"
  have "\<bar>1 - nx\<bar> \<le> 256" using n(1,2) by linarith
  from ra[OF this] have ea: "\<bar>a - (1 - nx)\<bar> \<le> \<delta>" unfolding a_def .
  with n(1,2) d have "\<bar>a * 40\<bar> \<le> 256" by linarith
  from ra[OF this] have eb: "\<bar>bb - a * 40\<bar> \<le> \<delta>" unfolding bb_def .
  with ea n(1,2) d have "\<bar>70 + bb\<bar> \<le> 256" by linarith
  from ra[OF this] have ep: "\<bar>r (70 + bb) - (70 + bb)\<bar> \<le> \<delta>" .
  have x: "(1 - c) * 40 = 40 - 40 * c" by (simp add: algebra_simps)
  from ea eb ep nc have "\<bar>r (70 + bb) - (70 + (1 - c) * 40)\<bar> \<le> 82 * \<delta>"
    unfolding x by linarith
  then show ?thesis by (simp only: a_def bb_def \<delta>_def times_divide_eq_right mult_1_right)
qed

lemma tilt_error:
  assumes b: "binary64_rounding r" and n: "0 \<le> ny" "ny \<le> 1" "\<bar>ny - c\<bar> \<le> 1 / 2 ^ 44"
  shows "\<bar>r (60 + r (ny * 40)) - (60 + c * 40)\<bar> \<le> 42 / 2 ^ 44"
proof -
  define \<delta> :: rat where "\<delta> = 1 / 2 ^ 44"
  have d: "0 \<le> \<delta>" "\<delta> \<le> 1 / 1000" by (simp_all add: \<delta>_def)
  note ra = rounding_abs[OF b, folded \<delta>_def]
  note nc = n(3)[folded \<delta>_def]
  define bb where "bb = r (ny * 40)"
  have "\<bar>ny * 40\<bar> \<le> 256" using n(1,2) by linarith
  from ra[OF this] have eb: "\<bar>bb - ny * 40\<bar> \<le> \<delta>" unfolding bb_def .
  with n(1,2) d have "\<bar>60 + bb\<bar> \<le> 256" by linarith
  from ra[OF this] have ep: "\<bar>r (60 + bb) - (60 + bb)\<bar> \<le> \<delta>" .
  from eb ep nc have "\<bar>r (60 + bb) - (60 + c * 40)\<bar> \<le> 42 * \<delta>" by linarith
  then show ?thesis by (simp only: bb_def \<delta>_def times_divide_eq_right mult_1_right)
qed


lemma snap_to_nearest:
  fixes e d :: rat and k n h :: int
  assumes k: "of_int k = of_int (2 * h) * (of_int n - e)" and h: "0 < h"
    and near: "\<bar>of_int n - e\<bar> \<le> 1 / 2 + d" and small: "of_int (2 * h) * d < 1"
  shows "\<bar>of_int n - e\<bar> \<le> 1 / 2"
proof -
  have hp: "(0::rat) < of_int (2 * h)" using h by simp
  have "\<bar>(of_int k :: rat)\<bar> = of_int (2 * h) * \<bar>of_int n - e\<bar>"
    using hp by (simp add: k abs_mult)
  also have "\<dots> \<le> of_int (2 * h) * (1 / 2 + d)"
    using hp near by (intro mult_left_mono) simp_all
  also have "\<dots> = of_int h + of_int (2 * h) * d" by (simp add: algebra_simps)
  also have "\<dots> < of_int h + 1" using small by simp
  finally have "\<bar>(of_int k :: rat)\<bar> < of_int (h + 1)" by simp
  then have "(of_int \<bar>k\<bar> :: rat) < of_int (h + 1)" by simp
  then have "\<bar>k\<bar> < h + 1" by (simp only: of_int_less_iff)
  then have "\<bar>k\<bar> \<le> h" by simp
  then have "(of_int \<bar>k\<bar> :: rat) \<le> of_int h" by (simp only: of_int_le_iff)
  then have "of_int (2 * h) * \<bar>of_int n - e\<bar> \<le> (of_int h :: rat)"
    using hp by (simp add: k abs_mult)
  then have "of_int (2 * h) * \<bar>of_int n - e\<bar> \<le> of_int (2 * h) * (1 / 2 :: rat)" by simp
  then show ?thesis using hp by (simp only: mult_le_cancel_left_pos)
qed

lemma clamp01_int:
  fixes x w :: int
  assumes "0 < w"
  shows "max 0 (min 1 (of_int x / of_int w :: rat)) = of_int (max 0 (min w x)) / of_int w"
proof -
  have wp: "(0::rat) < of_int w" using assms by simp
  consider "x \<le> 0" | "0 < x" "x < w" | "w \<le> x" by linarith
  then show ?thesis
  proof cases
    case 1
    then have "(of_int x / of_int w :: rat) \<le> 0" using wp by (simp add: divide_le_0_iff)
    with 1 assms show ?thesis by (simp add: max_def min_def)
  next
    case 2
    then have "0 < (of_int x / of_int w :: rat)" "(of_int x / of_int w :: rat) < 1" using wp by simp_all
    with 2 show ?thesis by (simp add: max_def min_def)
  next
    case 3
    then have "1 \<le> (of_int x / of_int w :: rat)" using wp by simp
    with 3 assms show ?thesis by (simp add: max_def min_def)
  qed
qed


lemma int_from_near:
  fixes p lo :: int
  assumes "\<bar>of_int p - (of_int lo :: rat)\<bar> \<le> 1 / 2"
  shows "p = lo"
proof -
  have "\<bar>(of_int p :: rat) - of_int lo\<bar> < 1" using assms by linarith
  then have "\<bar>(of_int (p - lo) :: rat)\<bar> < 1" by simp
  then have "(of_int \<bar>p - lo\<bar> :: rat) < of_int 1" by simp
  then have "\<bar>p - lo\<bar> < 1" by (simp only: of_int_less_iff)
  then show ?thesis by simp
qed

lemma int_ge_from_near:
  fixes n lo :: int and v :: rat
  assumes "\<bar>of_int n - v\<bar> \<le> 1 / 2" "of_int lo \<le> v"
  shows "lo \<le> n"
proof -
  have "(of_int lo :: rat) - 1 < of_int n" using assms by linarith
  then have "(of_int (lo - 1) :: rat) < of_int n" by simp
  then have "lo - 1 < n" by (simp only: of_int_less_iff)
  then show ?thesis by simp
qed

lemma int_le_from_near:
  fixes n hi :: int and v :: rat
  assumes "\<bar>of_int n - v\<bar> \<le> 1 / 2" "v \<le> of_int hi"
  shows "n \<le> hi"
proof -
  have "(of_int n :: rat) < of_int hi + 1" using assms by linarith
  then have "(of_int n :: rat) < of_int (hi + 1)" by simp
  then have "n < hi + 1" by (simp only: of_int_less_iff)
  then show ?thesis by simp
qed

lemma clamp_nearest:
  fixes lo hi p :: int and v :: rat
  assumes le: "lo \<le> hi" and near: "nearest_int (max (of_int lo) (min (of_int hi) v)) p"
  shows "\<exists>n. nearest_int v n \<and> p = clamp lo hi n"
proof -
  consider "v < of_int lo" | "of_int lo \<le> v" "v \<le> of_int hi" | "of_int hi < v" by linarith
  then show ?thesis
  proof cases
    case 1
    with le have "max (of_int lo) (min (of_int hi) v) = of_int lo" by (simp add: max_def min_def)
    with near have "\<bar>of_int p - (of_int lo :: rat)\<bar> \<le> 1 / 2" unfolding nearest_int_def by simp
    then have p: "p = lo" by (rule int_from_near)
    have n: "nearest_int v (py_round v)" unfolding nearest_int_def by (rule py_round_near)
    have "v \<le> of_int lo" using 1 by simp
    from int_le_from_near[OF py_round_near this] have "py_round v \<le> lo" .
    with le p have "p = clamp lo hi (py_round v)" by (simp add: clamp_def)
    with n show ?thesis by blast
  next
    case 2
    then have "max (of_int lo) (min (of_int hi) v) = v" by (simp add: max_def min_def)
    with near have n: "nearest_int v p" by simp
    then have np: "\<bar>of_int p - v\<bar> \<le> 1 / 2" unfolding nearest_int_def .
    have "lo \<le> p" "p \<le> hi"
      using int_ge_from_near[OF np 2(1)] int_le_from_near[OF np 2(2)] by blast+
    then have "p = clamp lo hi p" by (simp add: clamp_def)
    with n show ?thesis by blast
  next
    case 3
    with le have "max (of_int lo) (min (of_int hi) v) = of_int hi" by (simp add: max_def min_def)
    with near have "\<bar>of_int p - (of_int hi :: rat)\<bar> \<le> 1 / 2" unfolding nearest_int_def by simp
    then have p: "p = hi" by (rule int_from_near)
    have n: "nearest_int v (py_round v)" unfolding nearest_int_def by (rule py_round_near)
    have "of_int hi \<le> v" using 3 by simp
    from int_ge_from_near[OF py_round_near this] have "hi \<le> py_round v" .
    with le p have "p = clamp lo hi (py_round v)" by (simp add: clamp_def)
    with n show ?thesis by blast
  qed
qed


lemma pan_nearest:
  assumes b: "binary64_rounding r" and q: "\<bar>of_int x / 640 :: rat\<bar> < dbl_overflow"
  shows "nearest_int (110 - of_int (max 0 (min 640 x)) / 16)
           (py_round (r (70 + r (r (1 - max 0 (min 1 (r (of_int x / 640)))) * 40))))"
proof -
  define nx where "nx = max 0 (min 1 (r (of_int x / 640)))"
  define c :: rat where "c = of_int (max 0 (min 640 x)) / 640"
  define p where "p = r (70 + r (r (1 - nx) * 40))"
  define e :: rat where "e = 110 - of_int (max 0 (min 640 x)) / 16"
  have c': "max 0 (min 1 (of_int x / 640 :: rat)) = c"
    using clamp01_int[of 640 x] by (simp add: c_def)
  have n: "0 \<le> nx" "nx \<le> 1" by (simp_all add: nx_def)
  have "\<bar>nx - c\<bar> \<le> 1 / 2 ^ 44" using clamp01_round[OF b q] by (simp only: nx_def c')
  from pan_error[OF b n this] have pe: "\<bar>p - (70 + (1 - c) * 40)\<bar> \<le> 82 / 2 ^ 44"
    by (simp only: p_def)
  have ee: "70 + (1 - c) * 40 = e" by (simp add: c_def e_def algebra_simps)
  have "\<bar>of_int (py_round p) - p\<bar> \<le> 1 / 2" by (rule py_round_near)
  with pe have near: "\<bar>of_int (py_round p) - e\<bar> \<le> 1 / 2 + 82 / 2 ^ 44"
    unfolding ee by linarith
  have k: "of_int (16 * py_round p - 1760 + max 0 (min 640 x)) = of_int (2 * 8) * (of_int (py_round p) - e)"
    by (simp add: e_def algebra_simps)
  have "\<bar>of_int (py_round p) - e\<bar> \<le> 1 / 2"
    by (rule snap_to_nearest[OF k _ near]) simp_all
  then show ?thesis by (simp only: nearest_int_def p_def nx_def e_def)
qed

lemma tilt_nearest:
  assumes b: "binary64_rounding r" and q: "\<bar>of_int y / 480 :: rat\<bar> < dbl_overflow"
  shows "nearest_int (60 + of_int (max 0 (min 480 y)) / 12)
           (py_round (r (60 + r (max 0 (min 1 (r (of_int y / 480))) * 40))))"
proof -
  define ny where "ny = max 0 (min 1 (r (of_int y / 480)))"
  define c :: rat where "c = of_int (max 0 (min 480 y)) / 480"
  define p where "p = r (60 + r (ny * 40))"
  define e :: rat where "e = 60 + of_int (max 0 (min 480 y)) / 12"
  have c': "max 0 (min 1 (of_int y / 480 :: rat)) = c"
    using clamp01_int[of 480 y] by (simp add: c_def)
  have n: "0 \<le> ny" "ny \<le> 1" by (simp_all add: ny_def)
  have "\<bar>ny - c\<bar> \<le> 1 / 2 ^ 44" using clamp01_round[OF b q] by (simp only: ny_def c')
  from tilt_error[OF b n this] have pe: "\<bar>p - (60 + c * 40)\<bar> \<le> 42 / 2 ^ 44"
    by (simp only: p_def)
  have ee: "60 + c * 40 = e" by (simp add: c_def e_def algebra_simps)
  have "\<bar>of_int (py_round p) - p\<bar> \<le> 1 / 2" by (rule py_round_near)
  with pe have near: "\<bar>of_int (py_round p) - e\<bar> \<le> 1 / 2 + 42 / 2 ^ 44"
    unfolding ee by linarith
  have k: "of_int (12 * py_round p - 720 - max 0 (min 480 y)) = of_int (2 * 6) * (of_int (py_round p) - e)"
    by (simp add: e_def algebra_simps)
  have "\<bar>of_int (py_round p) - e\<bar> \<le> 1 / 2"
    by (rule snap_to_nearest[OF k _ near]) simp_all
  then show ?thesis by (simp only: nearest_int_def p_def ny_def e_def)
qed

lemma spec_pan_clamped:
  "max (of_int 70) (min (of_int 110) (spec_pan x)) = 110 - of_int (max 0 (min 640 x)) / 16"
proof -
  have s: "spec_pan x = 110 - of_int x / 16"
    by (simp add: spec_pan_def EYE_PAN_MIN_def EYE_PAN_MAX_def algebra_simps)
  consider "x \<le> 0" | "0 < x" "x < 640" | "640 \<le> x" by linarith
  then show ?thesis
  proof cases
    case 1
    then have "(of_int x :: rat) \<le> 0" by simp
    with 1 show ?thesis unfolding s by (simp add: max_def min_def)
  next
    case 2
    then have "(0::rat) < of_int x" "(of_int x :: rat) < 640" by simp_all
    with 2 show ?thesis unfolding s by (simp add: max_def min_def)
  next
    case 3
    then have "(640::rat) \<le> of_int x" by simp
    with 3 show ?thesis unfolding s by (simp add: max_def min_def)
  qed
qed

lemma spec_tilt_clamped:
  "max (of_int 60) (min (of_int 100) (spec_tilt y)) = 60 + of_int (max 0 (min 480 y)) / 12"
proof -
  have s: "spec_tilt y = 60 + of_int y / 12"
    by (simp add: spec_tilt_def EYE_TILT_MIN_def EYE_TILT_MAX_def algebra_simps)
  consider "y \<le> 0" | "0 < y" "y < 480" | "480 \<le> y" by linarith
  then show ?thesis
  proof cases
    case 1
    then have "(of_int y :: rat) \<le> 0" by simp
    with 1 show ?thesis unfolding s by (simp add: max_def min_def)
  next
    case 2
    then have "(0::rat) < of_int y" "(of_int y :: rat) < 480" by simp_all
    with 2 show ?thesis unfolding s by (simp add: max_def min_def)
  next
    case 3
    then have "(480::rat) \<le> of_int y" by simp
    with 3 show ?thesis unfolding s by (simp add: max_def min_def)
  qed
qed


lemma face_to_servo_Some:
  "face_to_servo r x y 640 480 = Some a \<longleftrightarrow>
     float_divisible x 640 \<and> float_divisible y 480 \<and>
     a = (py_round (r (70 + r (r (1 - max 0 (min 1 (r (of_int x / 640)))) * 40))),
          py_round (r (60 + r (max 0 (min 1 (r (of_int y / 480))) * 40))))"
  by (auto simp: face_to_servo_def py_truediv_def float_divisible_def Let_def EYE_PAN_MIN_def
      EYE_PAN_MAX_def EYE_TILT_MIN_def EYE_TILT_MAX_def not_le split: if_splits)

lemma face_to_servo_angles:
  assumes b: "binary64_rounding r" and f: "face_to_servo r x y 640 480 = Some a"
  shows "servo_angles x y a"
proof -
  from f have qx: "\<bar>of_int x / 640 :: rat\<bar> < dbl_overflow" and qy: "\<bar>of_int y / 480 :: rat\<bar> < dbl_overflow"
    and a: "a = (py_round (r (70 + r (r (1 - max 0 (min 1 (r (of_int x / 640)))) * 40))),
          py_round (r (60 + r (max 0 (min 1 (r (of_int y / 480))) * 40))))"
    by (simp_all add: face_to_servo_Some float_divisible_def)
  have p: "\<exists>n. nearest_int (spec_pan x) n \<and>
             py_round (r (70 + r (r (1 - max 0 (min 1 (r (of_int x / 640)))) * 40))) = clamp 70 110 n"
  proof (rule clamp_nearest)
    show "(70::int) \<le> 110" by simp
    show "nearest_int (max (of_int 70) (min (of_int 110) (spec_pan x)))
      (py_round (r (70 + r (r (1 - max 0 (min 1 (r (of_int x / 640)))) * 40))))"
      unfolding spec_pan_clamped by (rule pan_nearest[OF b qx])
  qed
  have t: "\<exists>n. nearest_int (spec_tilt y) n \<and>
             py_round (r (60 + r (max 0 (min 1 (r (of_int y / 480))) * 40))) = clamp 60 100 n"
  proof (rule clamp_nearest)
    show "(60::int) \<le> 100" by simp
    show "nearest_int (max (of_int 60) (min (of_int 100) (spec_tilt y)))
      (py_round (r (60 + r (max 0 (min 1 (r (of_int y / 480))) * 40))))"
      unfolding spec_tilt_clamped by (rule tilt_nearest[OF b qy])
  qed
  from p t show ?thesis
    by (simp add: servo_angles_def a EYE_PAN_MIN_def EYE_PAN_MAX_def EYE_TILT_MIN_def EYE_TILT_MAX_def)
qed

lemma nearest_to_int: "nearest_int (of_int m) n \<Longrightarrow> n = m"
  unfolding nearest_int_def by (rule int_from_near)

lemma servo_angles_corners:
  assumes "servo_angles x y (pan, tilt)"
  shows "(x = 0 \<longrightarrow> pan = EYE_PAN_MAX) \<and> (x = 640 \<longrightarrow> pan = EYE_PAN_MIN) \<and>
         (y = 0 \<longrightarrow> tilt = EYE_TILT_MIN) \<and> (y = 480 \<longrightarrow> tilt = EYE_TILT_MAX)"
proof -
  have s: "spec_pan 0 = of_int 110" "spec_pan 640 = of_int 70" "spec_tilt 0 = of_int 60"
    "spec_tilt 480 = of_int 100"
    by (simp_all add: spec_pan_def spec_tilt_def EYE_PAN_MIN_def EYE_PAN_MAX_def EYE_TILT_MIN_def
        EYE_TILT_MAX_def)
  from assms obtain n m where n: "nearest_int (spec_pan x) n" "pan = clamp EYE_PAN_MIN EYE_PAN_MAX n"
    and m: "nearest_int (spec_tilt y) m" "tilt = clamp EYE_TILT_MIN EYE_TILT_MAX m"
    by (auto simp: servo_angles_def)
  have "x = 0 \<longrightarrow> pan = EYE_PAN_MAX"
    using n nearest_to_int[of 110 n] by (auto simp: s clamp_def EYE_PAN_MIN_def EYE_PAN_MAX_def)
  moreover have "x = 640 \<longrightarrow> pan = EYE_PAN_MIN"
    using n nearest_to_int[of 70 n] by (auto simp: s clamp_def EYE_PAN_MIN_def EYE_PAN_MAX_def)
  moreover have "y = 0 \<longrightarrow> tilt = EYE_TILT_MIN"
    using m nearest_to_int[of 60 m] by (auto simp: s clamp_def EYE_TILT_MIN_def EYE_TILT_MAX_def)
  moreover have "y = 480 \<longrightarrow> tilt = EYE_TILT_MAX"
    using m nearest_to_int[of 100 m] by (auto simp: s clamp_def EYE_TILT_MIN_def EYE_TILT_MAX_def)
  ultimately show ?thesis by blast
qed


lemma exact_is_binary64_rounding: "binary64_rounding (\<lambda>v. v)"
proof -
  have "(0::rat) \<le> \<bar>v\<bar> / 2 ^ 53 + 1 / 2 ^ 1075" for v
    by (intro add_nonneg_nonneg divide_nonneg_nonneg zero_le_power) simp_all
  then show ?thesis by (simp only: binary64_rounding_def diff_self abs_zero simp_thms)
qed

lemma pixel_float_divisible: "\<bar>x\<bar> \<le> 100000 \<Longrightarrow> float_divisible x 640 \<and> float_divisible x 480"
proof -
  assume a: "\<bar>x\<bar> \<le> 100000"
  then have "\<bar>of_int x :: rat\<bar> \<le> 100000" by (metis of_int_abs of_int_le_iff of_int_numeral)
  then have "\<bar>of_int x / 640 :: rat\<bar> \<le> 256" "\<bar>of_int x / 480 :: rat\<bar> \<le> 256" by simp_all
  then have "\<bar>of_int x / 640 :: rat\<bar> < dbl_overflow" "\<bar>of_int x / 480 :: rat\<bar> < dbl_overflow"
    by (simp_all only: small_in_range)
  then show ?thesis by (simp only: float_divisible_def) simp
qed

lemma tie_floor: "\<lfloor>219 / 2 :: rat\<rfloor> = 109"
  by (simp add: floor_eq_iff)

lemma face_to_servo_exact_values:
  "face_to_servo (\<lambda>v. v) 0 480 640 480 = Some (110, 100)"
  "face_to_servo (\<lambda>v. v) 640 0 640 480 = Some (70, 60)"
  "face_to_servo (\<lambda>v. v) 8 240 640 480 = Some (110, 80)"
  "face_to_servo (\<lambda>v. v) 999 (- 5) 640 480 = Some (70, 60)"
  using pixel_float_divisible[of 0] pixel_float_divisible[of 480] pixel_float_divisible[of 640]
    pixel_float_divisible[of 8] pixel_float_divisible[of 240] pixel_float_divisible[of 999]
    pixel_float_divisible[of "- 5"]
  by (simp_all add: face_to_servo_Some py_round_def Let_def tie_floor)

subsection \<open>The angles of \<^verbatim>\<open>face_look\<close>\<close>

lemma face_look_pixel:
  assumes "face_look w b s = (Some rep, s')"
  shows "\<exists>x y a. requested_pixel b = Some (x, y) \<and> face_to_servo (fl w) x y 640 480 = Some a \<and>
           look rep = Some a"
proof -
  let ?data = "case b of BodyError \<Rightarrow> None | BodyOther quiet \<Rightarrow> None | BodyFalsy \<Rightarrow> Some []
                    | BodyDict data \<Rightarrow> Some data"
  from assms obtain data where d: "?data = Some data"
    by (cases ?data) (simp_all add: face_look_def)
  from assms d obtain x where x: "get_int data ''x'' 320 = Some x"
    by (cases "get_int data ''x'' 320") (simp_all add: face_look_def)
  from assms d x obtain y where y: "get_int data ''y'' 240 = Some y"
    by (cases "get_int data ''y'' 240") (simp_all add: face_look_def)
  from assms d x y obtain a where a: "face_to_servo (fl w) x y 640 480 = Some a"
    by (cases "face_to_servo (fl w) x y 640 480") (simp_all add: face_look_def)
  obtain pan tilt where p: "a = (pan, tilt)" by (cases a)
  obtain ok m s1 where snd: "volt_send_to_face_arduino w (look_command pan tilt) s = (ok, m, s1)"
    by (cases "volt_send_to_face_arduino w (look_command pan tilt) s")
  from assms d x y a p snd have "look rep = Some a" by (auto simp: face_look_def)
  moreover from d x y have "requested_pixel b = Some (x, y)" by (simp add: requested_pixel_def)
  ultimately show ?thesis using a by blast
qed

lemma face_look_replies:
  assumes "requested_pixel b = Some (x, y)" "face_to_servo (fl w) x y 640 480 = Some a"
  shows "\<exists>rep s'. face_look w b s = (Some rep, s') \<and> look rep = Some a"
proof -
  let ?data = "case b of BodyError \<Rightarrow> None | BodyOther quiet \<Rightarrow> None | BodyFalsy \<Rightarrow> Some []
                    | BodyDict data \<Rightarrow> Some data"
  from assms(1) obtain data where d: "?data = Some data" "get_int data ''x'' 320 = Some x"
    "get_int data ''y'' 240 = Some y"
    by (auto simp: requested_pixel_def split: option.splits)
  obtain pan tilt where p: "a = (pan, tilt)" by (cases a)
  obtain ok m s1 where snd: "volt_send_to_face_arduino w (look_command pan tilt) s = (ok, m, s1)"
    by (cases "volt_send_to_face_arduino w (look_command pan tilt) s")
  from d assms(2) p snd show ?thesis by (simp add: face_look_def)
qed

section \<open>The claims\<close>

text \<open>
  C1. For every \<^verbatim>\<open>POST /hand\<close> payload whose supplied channels are integers of any size or
  sign, both servers build, echo and transmit only angles clamped into their ranges (wrist
  0..90, fingers 0..180), each supplied value saturated at its bounds, and the request is
  never refused for its values: the PC server always answers 200, and the Raspberry Pi
  server answers 200 unless its connection check fails before the payload is read.
\<close>

theorem hand_channels_clamped:
  assumes "int_payload data" and "data \<noteq> []"
  shows "(case volt_set_hand w (BodyDict data) s of
            (r, s') \<Rightarrow> hand_reply_clamped data r (new_events s s')) \<and>
         (case pi_set_hand w (BodyDict data) s of
            (r, s') \<Rightarrow> hand_reply_clamped data r (new_events s s') \<or>
                       (http r = 503 \<and> angles r = None \<and> \<not> fst (pi_check_connection w Hand s)))"
  by (rule conjI[OF volt_set_hand_clamped[OF assms] pi_set_hand_clamped[OF assms]])

theorem hand_channels_clamped_witness:
  "int_payload [(''wrist'', JInt 999), (''f1'', JInt (- 5))] \<and>
   hand_reply_clamped [(''wrist'', JInt 999), (''f1'', JInt (- 5))]
     (fst (volt_set_hand all_ok (BodyDict [(''wrist'', JInt 999), (''f1'', JInt (- 5))]) idle))
     (new_events idle (snd (volt_set_hand all_ok (BodyDict [(''wrist'', JInt 999), (''f1'', JInt (- 5))]) idle))) \<and>
   angles (fst (volt_set_hand all_ok (BodyDict [(''wrist'', JInt 999), (''f1'', JInt (- 5))]) idle)) =
     Some \<lparr>wrist = 90, f1 = 0, f2 = 0, f3 = 0, f4 = 180, f5 = 180, f6 = 0\<rparr> \<and>
   lines_to Hand (trace (snd (volt_set_hand all_ok (BodyDict [(''wrist'', JInt 999), (''f1'', JInt (- 5))]) idle))) =
     [''0,0,0,0,180,180,0'' @ [CHR 0x0A], ''90,0,0,0,180,180,0'' @ [CHR 0x0A]] \<and>
   angles (fst (pi_set_hand all_ok (BodyDict [(''wrist'', JInt 999), (''f1'', JInt (- 5))]) idle)) =
     Some \<lparr>wrist = 90, f1 = 0, f2 = 0, f3 = 0, f4 = 0, f5 = 0, f6 = 0\<rparr> \<and>
   http (fst (pi_set_hand all_ok (BodyDict [(''wrist'', JInt 999), (''f1'', JInt (- 5))]) idle)) = 200"
proof -
  let ?D = "[(''wrist'', JInt 999), (''f1'', JInt (- 5))]"
  have a: "int_payload ?D" by code_simp
  have b: "?D \<noteq> []" by simp
  have c: "hand_reply_clamped ?D (fst (volt_set_hand all_ok (BodyDict ?D) idle))
             (new_events idle (snd (volt_set_hand all_ok (BodyDict ?D) idle)))"
    using hand_channels_clamped[OF a b, where w = all_ok and s = idle] by (simp add: case_prod_unfold)
  have d: "angles (fst (volt_set_hand all_ok (BodyDict ?D) idle)) =
     Some \<lparr>wrist = 90, f1 = 0, f2 = 0, f3 = 0, f4 = 180, f5 = 180, f6 = 0\<rparr>"
    by code_simp
  have e: "lines_to Hand (trace (snd (volt_set_hand all_ok (BodyDict ?D) idle))) =
     [''0,0,0,0,180,180,0'' @ [CHR 0x0A], ''90,0,0,0,180,180,0'' @ [CHR 0x0A]]"
    by code_simp
  have f: "angles (fst (pi_set_hand all_ok (BodyDict ?D) idle)) =
     Some \<lparr>wrist = 90, f1 = 0, f2 = 0, f3 = 0, f4 = 0, f5 = 0, f6 = 0\<rparr>"
    by code_simp
  have g: "http (fst (pi_set_hand all_ok (BodyDict ?D) idle)) = 200"
    by code_simp
  show ?thesis using a c d e f g by blast
qed

text \<open>
  C2. The claim fails on the PC server, whose handlers give no code 503: with the hand port
  missing, a valid \<^verbatim>\<open>POST /hand\<close> is answered 200 with status \<^verbatim>\<open>error\<close>.
\<close>

theorem device_unavailable_counterexample:
  "unavailable volt_init_arduino no_port Hand idle \<and>
   http (fst (volt_set_hand no_port (BodyDict [(''wrist'', JInt 30)]) idle)) = 200 \<and>
   status (fst (volt_set_hand no_port (BodyDict [(''wrist'', JInt 30)]) idle)) = ''error''"
  by code_simp

text \<open>
  C2, amended. When the target link is not open and the one reconnection fails, the link is
  left not open by both servers; the Raspberry Pi server answers 503 with status
  \<^verbatim>\<open>error\<close> to \<^verbatim>\<open>/hand\<close>, \<^verbatim>\<open>/face\<close> and \<^verbatim>\<open>/face_expression\<close>, and the PC server answers
  with status \<^verbatim>\<open>error\<close> and code 400 (the body is refused) or 200 (the send failed).
\<close>

theorem device_unavailable_replies:
  "(unavailable pi_init_arduino w Hand s \<longrightarrow>
      (case pi_set_hand w b s of (r, s') \<Rightarrow>
         http r = 503 \<and> status r = ''error'' \<and> hand_arduino s' \<noteq> OpenPort)) \<and>
   (unavailable pi_init_arduino w Face s \<longrightarrow>
      (case pi_set_face w b s of (r, s') \<Rightarrow>
         http r = 503 \<and> status r = ''error'' \<and> face_arduino s' \<noteq> OpenPort)) \<and>
   (unavailable pi_init_arduino w Face s \<longrightarrow>
      (case pi_set_face_expression w b s of (r, s') \<Rightarrow>
         http r = 503 \<and> status r = ''error'' \<and> face_arduino s' \<noteq> OpenPort)) \<and>
   (unavailable volt_init_arduino w Hand s \<longrightarrow>
      (case volt_set_hand w b s of (r, s') \<Rightarrow>
         (http r = 200 \<or> http r = 400) \<and> status r = ''error'' \<and> hand_arduino s' \<noteq> OpenPort)) \<and>
   (unavailable volt_init_arduino w Face s \<longrightarrow>
      (case volt_set_face w b s of (r, s') \<Rightarrow>
         (http r = 200 \<or> http r = 400) \<and> status r = ''error'' \<and> face_arduino s' \<noteq> OpenPort)) \<and>
   (unavailable volt_init_arduino w Face s \<longrightarrow>
      (case volt_set_face_expression w b s of (r, s') \<Rightarrow>
         (http r = 200 \<or> http r = 400) \<and> status r = ''error'' \<and> face_arduino s' \<noteq> OpenPort))"
  by (intro conjI impI pi_set_hand_unavailable pi_set_face_unavailable
      pi_set_face_expression_unavailable volt_set_hand_unavailable volt_set_face_unavailable
      volt_set_face_expression_unavailable)

theorem device_unavailable_replies_witness:
  "unavailable pi_init_arduino no_port Hand idle \<and> unavailable pi_init_arduino no_port Face idle \<and>
   unavailable volt_init_arduino no_port Hand idle \<and> unavailable volt_init_arduino no_port Face idle \<and>
   http (fst (pi_set_hand no_port (BodyDict [(''wrist'', JInt 30)]) idle)) = 503 \<and>
   status (fst (pi_set_hand no_port (BodyDict [(''wrist'', JInt 30)]) idle)) = ''error'' \<and>
   hand_arduino (snd (pi_set_hand no_port (BodyDict [(''wrist'', JInt 30)]) idle)) \<noteq> OpenPort \<and>
   http (fst (pi_set_face no_port (BodyDict [(''wrist'', JInt 30)]) idle)) = 503 \<and>
   http (fst (pi_set_face_expression no_port (BodyDict [(''wrist'', JInt 30)]) idle)) = 503 \<and>
   status (fst (volt_set_hand no_port (BodyDict [(''wrist'', JInt 30)]) idle)) = ''error'' \<and>
   hand_arduino (snd (volt_set_hand no_port (BodyDict [(''wrist'', JInt 30)]) idle)) \<noteq> OpenPort \<and>
   http (fst (volt_set_face no_port (BodyDict [(''wrist'', JInt 30)]) idle)) = 400 \<and>
   http (fst (volt_set_face_expression no_port (BodyDict [(''wrist'', JInt 30)]) idle)) = 400"
proof -
  have h: "unavailable pi_init_arduino no_port Hand idle" "unavailable pi_init_arduino no_port Face idle"
    "unavailable volt_init_arduino no_port Hand idle" "unavailable volt_init_arduino no_port Face idle"
    by code_simp+
  note t = device_unavailable_replies[where w = no_port and s = idle and b = "BodyDict [(''wrist'', JInt 30)]"]
  have e: "http (fst (volt_set_face no_port (BodyDict [(''wrist'', JInt 30)]) idle)) = 400"
    "http (fst (volt_set_face_expression no_port (BodyDict [(''wrist'', JInt 30)]) idle)) = 400"
    by code_simp+
  show ?thesis using h t e by (simp add: case_prod_unfold)
qed

text \<open>
  C3. The two servers are not equivalent. A \<^verbatim>\<open>POST /hand\<close> payload without \<^verbatim>\<open>f4\<close> and
  \<^verbatim>\<open>f5\<close> makes the Raspberry Pi server send and echo 0 for both and the PC server 180; and
  with the hand port missing the same request is answered 503 by the first and 200 by the
  second. Nor do they treat the link alike: after each write the PC server reads the answer
  of the device, which the Raspberry Pi server never does, so that with the port open, the
  write going through and this read raising, the first answers \<^verbatim>\<open>success\<close> and keeps the
  link while the second answers \<^verbatim>\<open>error\<close> and sets the link to \<^verbatim>\<open>None\<close>.
\<close>

theorem variants_equivalent_counterexample:
  "lines_to Hand (trace (snd (pi_set_hand all_ok (BodyDict [(''wrist'', JInt 30)]) running))) =
     [''30,0,0,0,0,0,0'' @ [CHR 0x0A]] \<and>
   lines_to Hand (trace (snd (volt_set_hand all_ok (BodyDict [(''wrist'', JInt 30)]) running))) =
     [''30,0,0,0,180,180,0'' @ [CHR 0x0A]] \<and>
   angles (fst (pi_set_hand all_ok (BodyDict [(''wrist'', JInt 30)]) running)) \<noteq>
     angles (fst (volt_set_hand all_ok (BodyDict [(''wrist'', JInt 30)]) running)) \<and>
   http (fst (pi_set_hand no_port (BodyDict [(''wrist'', JInt 30)]) idle)) = 503 \<and>
   http (fst (volt_set_hand no_port (BodyDict [(''wrist'', JInt 30)]) idle)) = 200 \<and>
   pi_set_hand read_fails (BodyDict [(''wrist'', JInt 30), (''f4'', JInt 180), (''f5'', JInt 180)]) running =
     (\<lparr>http = 200, status = ''success'', message = MsgSent,
       angles = Some \<lparr>wrist = 30, f1 = 0, f2 = 0, f3 = 0, f4 = 180, f5 = 180, f6 = 0\<rparr>,
       expression = None, look = None\<rparr>,
      running\<lparr>trace := [Write Hand (''30,0,0,0,180,180,0'' @ [CHR 0x0A]) True]\<rparr>) \<and>
   volt_set_hand read_fails (BodyDict [(''wrist'', JInt 30), (''f4'', JInt 180), (''f5'', JInt 180)]) running =
     (\<lparr>http = 200, status = ''error'', message = MsgSendError,
       angles = Some \<lparr>wrist = 30, f1 = 0, f2 = 0, f3 = 0, f4 = 180, f5 = 180, f6 = 0\<rparr>,
       expression = None, look = None\<rparr>,
      running\<lparr>hand_arduino := NoLink,
        trace := [Write Hand (''30,0,0,0,180,180,0'' @ [CHR 0x0A]) True, Read Hand False]\<rparr>)"
  by code_simp

text \<open>
  C3, amended. For \<^verbatim>\<open>POST /hand\<close> with a payload that supplies \<^verbatim>\<open>f4\<close> and \<^verbatim>\<open>f5\<close>, and for
  \<^verbatim>\<open>POST /face\<close> and \<^verbatim>\<open>POST /face_expression\<close>, whenever the target link is open or the
  reconnection of the Raspberry Pi server succeeds, the two servers answer with the same
  HTTP code and the same echo (clamped angles, expression name), and the lines that the PC
  server writes to the device are the first of the lines that the Raspberry Pi server
  writes. When the link is open they write the same lines, and their whole replies (status
  and message too) are the same provided the read of the answer, which the PC server
  performs after a write that went through, does not raise.
\<close>

theorem variants_agree:
  "(usable w Hand s \<and> supplies_f4_f5 b \<longrightarrow>
      agree_on w Hand s (pi_set_hand w b s) (volt_set_hand w b s)) \<and>
   (usable w Face s \<longrightarrow>
      agree_on w Face s (pi_set_face w b s) (volt_set_face w b s)) \<and>
   (usable w Face s \<longrightarrow>
      agree_on w Face s (pi_set_face_expression w b s) (volt_set_face_expression w b s))"
  using set_hand_agree[of w s b] set_face_agree[of w s b] set_face_expression_agree[of w s b]
  by blast

theorem variants_agree_witness:
  "usable all_ok Hand running \<and> usable all_ok Hand idle \<and> usable all_ok Face idle \<and>
   supplies_f4_f5 (BodyDict [(''wrist'', JInt 30), (''f4'', JInt 180), (''f5'', JInt 180)]) \<and>
   answer_read all_ok Hand running \<and>
   fst (pi_set_hand all_ok (BodyDict [(''wrist'', JInt 30), (''f4'', JInt 180), (''f5'', JInt 180)]) running) =
   fst (volt_set_hand all_ok (BodyDict [(''wrist'', JInt 30), (''f4'', JInt 180), (''f5'', JInt 180)]) running) \<and>
   lines_to Hand (new_events running (snd (pi_set_hand all_ok (BodyDict [(''wrist'', JInt 30), (''f4'', JInt 180), (''f5'', JInt 180)]) running))) =
   lines_to Hand (new_events running (snd (volt_set_hand all_ok (BodyDict [(''wrist'', JInt 30), (''f4'', JInt 180), (''f5'', JInt 180)]) running))) \<and>
   lines_to Hand (new_events running (snd (volt_set_hand all_ok (BodyDict [(''wrist'', JInt 30), (''f4'', JInt 180), (''f5'', JInt 180)]) running))) =
     [''30,0,0,0,180,180,0'' @ [CHR 0x0A]] \<and>
   same_answer
     (fst (pi_set_hand all_ok (BodyDict [(''wrist'', JInt 30), (''f4'', JInt 180), (''f5'', JInt 180)]) idle))
     (fst (volt_set_hand all_ok (BodyDict [(''wrist'', JInt 30), (''f4'', JInt 180), (''f5'', JInt 180)]) idle)) \<and>
   http (fst (pi_set_hand all_ok (BodyDict [(''wrist'', JInt 30), (''f4'', JInt 180), (''f5'', JInt 180)]) idle)) = 200 \<and>
   lines_to Hand (new_events idle (snd (volt_set_hand all_ok (BodyDict [(''wrist'', JInt 30), (''f4'', JInt 180), (''f5'', JInt 180)]) idle))) =
     [''0,0,0,0,180,180,0'' @ [CHR 0x0A], ''30,0,0,0,180,180,0'' @ [CHR 0x0A]] \<and>
   same_answer
     (fst (pi_set_face all_ok (BodyDict [(''wrist'', JInt 30), (''f4'', JInt 180), (''f5'', JInt 180)]) idle))
     (fst (volt_set_face all_ok (BodyDict [(''wrist'', JInt 30), (''f4'', JInt 180), (''f5'', JInt 180)]) idle)) \<and>
   same_answer
     (fst (pi_set_face_expression all_ok (BodyDict [(''wrist'', JInt 30), (''f4'', JInt 180), (''f5'', JInt 180)]) idle))
     (fst (volt_set_face_expression all_ok (BodyDict [(''wrist'', JInt 30), (''f4'', JInt 180), (''f5'', JInt 180)]) idle))"
proof -
  let ?b = "BodyDict [(''wrist'', JInt 30), (''f4'', JInt 180), (''f5'', JInt 180)]"
  have h: "usable all_ok Hand running" "usable all_ok Hand idle" "usable all_ok Face idle"
    "supplies_f4_f5 ?b" "answer_read all_ok Hand running" "link_of Hand running = OpenPort"
    by code_simp+
  have e: "http (fst (pi_set_hand all_ok ?b idle)) = 200"
    "lines_to Hand (new_events running (snd (volt_set_hand all_ok ?b running))) =
       [''30,0,0,0,180,180,0'' @ [CHR 0x0A]]"
    "lines_to Hand (new_events idle (snd (volt_set_hand all_ok ?b idle))) =
       [''0,0,0,0,180,180,0'' @ [CHR 0x0A], ''30,0,0,0,180,180,0'' @ [CHR 0x0A]]"
    by code_simp+
  note t = variants_agree[where w = all_ok and s = idle and b = ?b]
    variants_agree[where w = all_ok and s = running and b = ?b]
  show ?thesis using h e t by (simp add: agree_on_def)
qed

text \<open>
  C4. The claim fails on the Raspberry Pi server, whose handlers check the connection
  before they read the body: with the face link down, the unknown expression
  \<^verbatim>\<open>ecstatic\<close> is answered 400 after the reconnection has written its test line to the
  face, and it is answered 503 when the port cannot be opened.
\<close>

theorem validation_no_write_counterexample:
  "expression_refused (BodyDict [(''expression'', JStr ''ecstatic'' None ''ecstatic'')]) \<and>
   http (fst (pi_set_face_expression all_ok (BodyDict [(''expression'', JStr ''ecstatic'' None ''ecstatic'')]) idle)) = 400 \<and>
   trace (snd (pi_set_face_expression all_ok (BodyDict [(''expression'', JStr ''ecstatic'' None ''ecstatic'')]) idle)) =
     [Connect Face IsOpen, Write Face (''E90 M0'' @ [CHR 0x0A]) True] \<and>
   http (fst (pi_set_face_expression no_port (BodyDict [(''expression'', JStr ''ecstatic'' None ''ecstatic'')]) idle)) = 503"
  by code_simp

text \<open>
  C4, amended. A request to \<^verbatim>\<open>/hand\<close>, \<^verbatim>\<open>/face\<close> or \<^verbatim>\<open>/face_expression\<close> that fails
  validation is answered 400 by the PC server, which leaves the state as it is and so
  performs no operation on a device. The Raspberry Pi server does the same when the target
  link is open; when it is not, the server first calls the init function once, whose
  operations (the test write, if the port opens) are all that happens to the devices, and
  answers 400 if the call succeeds and 503 if it fails.
\<close>

theorem validation_no_write:
  "(hand_refused volt_hand_angles b \<longrightarrow>
      http (fst (volt_set_hand w b s)) = 400 \<and> snd (volt_set_hand w b s) = s) \<and>
   (face_refused b \<longrightarrow>
      http (fst (volt_set_face w b s)) = 400 \<and> snd (volt_set_face w b s) = s) \<and>
   (expression_refused b \<longrightarrow>
      http (fst (volt_set_face_expression w b s)) = 400 \<and> snd (volt_set_face_expression w b s) = s) \<and>
   (hand_refused pi_hand_angles b \<longrightarrow> pi_refusal w Hand s (pi_set_hand w b s)) \<and>
   (face_refused b \<longrightarrow> pi_refusal w Face s (pi_set_face w b s)) \<and>
   (expression_refused b \<longrightarrow> pi_refusal w Face s (pi_set_face_expression w b s))"
  using volt_set_hand_refused[of b w s] volt_set_face_refused[of b w s]
    volt_set_face_expression_refused[of b w s] pi_set_hand_refused[of b w s]
    pi_set_face_refused[of b w s] pi_set_face_expression_refused[of b w s]
  by blast

theorem validation_no_write_witness:
  "hand_refused volt_hand_angles BodyError \<and>
   hand_refused pi_hand_angles BodyError \<and>
   face_refused (BodyDict [(''expression'', JStr ''ecstatic'' None ''ecstatic'')]) \<and>
   expression_refused (BodyDict [(''expression'', JStr ''ecstatic'' None ''ecstatic'')]) \<and>
   http (fst (volt_set_face_expression all_ok (BodyDict [(''expression'', JStr ''ecstatic'' None ''ecstatic'')]) idle)) = 400 \<and>
   snd (volt_set_face_expression all_ok (BodyDict [(''expression'', JStr ''ecstatic'' None ''ecstatic'')]) idle) = idle \<and>
   http (fst (pi_set_face_expression all_ok (BodyDict [(''expression'', JStr ''ecstatic'' None ''ecstatic'')]) running)) = 400 \<and>
   snd (pi_set_face_expression all_ok (BodyDict [(''expression'', JStr ''ecstatic'' None ''ecstatic'')]) running) = running \<and>
   http (fst (pi_set_hand all_ok BodyError running)) = 400 \<and>
   snd (pi_set_hand all_ok BodyError running) = running"
proof -
  let ?b = "BodyDict [(''expression'', JStr ''ecstatic'' None ''ecstatic'')]"
  have h: "hand_refused volt_hand_angles BodyError" "hand_refused pi_hand_angles BodyError"
    "face_refused ?b" "expression_refused ?b" "face_refused BodyError" "expression_refused BodyError"
    "link_of Face running = OpenPort" "link_of Hand running = OpenPort"
    by code_simp+
  show ?thesis
    using h validation_no_write[where w = all_ok and s = idle and b = ?b]
      validation_no_write[where w = all_ok and s = running and b = ?b]
      validation_no_write[where w = all_ok and s = running and b = BodyError]
    by (simp add: pi_refusal_def)
qed

text \<open>
  C5. The claim holds on the PC server and fails on the Raspberry Pi server, whose send
  functions catch the exception and build the failure but keep the variable: with the
  hand port open and the write raising, \<^verbatim>\<open>send_to_hand_arduino\<close> of the Raspberry Pi
  server gives \<^verbatim>\<open>False\<close> with a message and leaves the link open, so that the connection
  check of the next request attempts no reconnection; the PC server ends with the link
  at \<^verbatim>\<open>None\<close>.
\<close>

theorem pi_send_keeps_link_after_write_error:
  "pi_send_to_hand_arduino write_fails ''30,0,0,0,180,180,0'' running =
     (False, MsgSendError,
      running\<lparr>trace := [Write Hand (''30,0,0,0,180,180,0'' @ [CHR 0x0A]) False]\<rparr>) \<and>
   hand_arduino (snd (snd (pi_send_to_hand_arduino write_fails ''30,0,0,0,180,180,0'' running))) = OpenPort \<and>
   pi_check_connection all_ok Hand
     (snd (snd (pi_send_to_hand_arduino write_fails ''30,0,0,0,180,180,0'' running))) =
     (True, snd (snd (pi_send_to_hand_arduino write_fails ''30,0,0,0,180,180,0'' running))) \<and>
   volt_send_to_hand_arduino write_fails ''30,0,0,0,180,180,0'' running =
     (False, MsgSendError,
      running\<lparr>hand_arduino := NoLink,
               trace := [Write Hand (''30,0,0,0,180,180,0'' @ [CHR 0x0A]) False]\<rparr>)"
  by code_simp



text \<open>
  C7. The frame slot is not cleared: \<^verbatim>\<open>stop_camera\<close> assigns \<^verbatim>\<open>camera_running\<close> and
  \<^verbatim>\<open>camera\<close> only, so frame 7 is still in the slot after the stop.
\<close>

theorem stop_camera_counterexample:
  "latest_frame running = Some 7 \<and> latest_frame (snd (stop_camera all_ok running)) = Some 7 \<and>
   latest_frame (snd (stop_camera all_ok running)) \<noteq> None"
  by code_simp

text \<open>
  C7, amended. After \<^verbatim>\<open>POST /camera/stop\<close> the running flag is false and the frame slot
  holds what it held before; a snapshot is refused, so the frame left in the slot is not
  served while the camera is stopped. If there is a camera handle it is released once,
  and unless the release raises (reply 500) the handle is dropped and the reply is 200.
\<close>

theorem stop_camera_effect:
  "(case stop_camera w s of (r, s') \<Rightarrow>
      \<not> camera_running s' \<and> latest_frame s' = latest_frame s \<and> snapshot_frame s' = None \<and>
      hand_arduino s' = hand_arduino s \<and> face_arduino s' = face_arduino s \<and>
      (case camera s of
         None \<Rightarrow> http r = 200 \<and> status r = ''success'' \<and> camera s' = None \<and> new_events s s' = []
       | Some c \<Rightarrow>
           if camera_release w (now s)
           then http r = 200 \<and> status r = ''success'' \<and> camera s' = None \<and>
                new_events s s' = [Release True]
           else http r = 500 \<and> status r = ''error'' \<and> camera s' = Some c \<and>
                new_events s s' = [Release False]))"
  by (auto simp: stop_camera_def Let_def link_defs json_reply_def snapshot_frame_def new_events_def
      split: option.splits)

theorem stop_camera_effect_witness:
  "camera running = Some 0 \<and> camera_release all_ok (now running) \<and>
   \<not> camera_running (snd (stop_camera all_ok running)) \<and>
   camera (snd (stop_camera all_ok running)) = None \<and>
   latest_frame (snd (stop_camera all_ok running)) = latest_frame running \<and>
   snapshot_frame (snd (stop_camera all_ok running)) = None \<and>
   http (fst (stop_camera all_ok running)) = 200 \<and>
   new_events running (snd (stop_camera all_ok running)) = [Release True]"
proof -
  have h: "camera running = Some 0" "camera_release all_ok (now running)" by code_simp+
  show ?thesis
    using h stop_camera_effect[where w = all_ok and s = running]
    by (simp add: case_prod_unfold)
qed

text \<open>
  C8. Let the float operations round as binary64 does. For every pixel read from a
  \<^verbatim>\<open>POST /face_look\<close> body whose two quotients are floats, the handler replies, and the
  angles of every reply are those of the specification for the frame 640 by 480: the pan is
  \<open>PAN_MIN + (1 - x/640) (PAN_MAX - PAN_MIN)\<close> and the tilt
  \<open>TILT_MIN + (y/480) (TILT_MAX - TILT_MIN)\<close>, each rounded to a nearest integer and clamped
  to its servo range; so \<open>x = 0\<close> gives \<open>PAN_MAX\<close>, \<open>x = 640\<close> gives \<open>PAN_MIN\<close>,
  \<open>y = 0\<close> gives \<open>TILT_MIN\<close> and \<open>y = 480\<close> gives \<open>TILT_MAX\<close>.
\<close>

theorem face_look_linear_map:
  assumes "binary64_rounding (fl w)"
  shows "(requested_pixel b = Some (x, y) \<and> float_divisible x 640 \<and> float_divisible y 480 \<longrightarrow>
            (\<exists>rep s'. face_look w b s = (Some rep, s'))) \<and>
         (face_look w b s = (Some rep, s') \<longrightarrow>
            (\<exists>x y pan tilt. requested_pixel b = Some (x, y) \<and>
               face_to_servo (fl w) x y 640 480 = Some (pan, tilt) \<and> look rep = Some (pan, tilt) \<and>
               servo_angles x y (pan, tilt) \<and>
               (x = 0 \<longrightarrow> pan = EYE_PAN_MAX) \<and> (x = 640 \<longrightarrow> pan = EYE_PAN_MIN) \<and>
               (y = 0 \<longrightarrow> tilt = EYE_TILT_MIN) \<and> (y = 480 \<longrightarrow> tilt = EYE_TILT_MAX)))"
proof (intro conjI impI)
  assume h: "requested_pixel b = Some (x, y) \<and> float_divisible x 640 \<and> float_divisible y 480"
  then obtain a where "face_to_servo (fl w) x y 640 480 = Some a"
    by (auto simp: face_to_servo_Some)
  with h face_look_replies[of b x y w a s] show "\<exists>rep s'. face_look w b s = (Some rep, s')" by blast
next
  assume "face_look w b s = (Some rep, s')"
  from face_look_pixel[OF this] obtain x y a where
    p: "requested_pixel b = Some (x, y)" "face_to_servo (fl w) x y 640 480 = Some a" "look rep = Some a"
    by blast
  obtain pan tilt where a: "a = (pan, tilt)" by (cases a)
  from face_to_servo_angles[OF assms p(2)] have sa: "servo_angles x y (pan, tilt)" by (simp add: a)
  from servo_angles_corners[OF sa] p a sa
  show "\<exists>x y pan tilt. requested_pixel b = Some (x, y) \<and>
               face_to_servo (fl w) x y 640 480 = Some (pan, tilt) \<and> look rep = Some (pan, tilt) \<and>
               servo_angles x y (pan, tilt) \<and>
               (x = 0 \<longrightarrow> pan = EYE_PAN_MAX) \<and> (x = 640 \<longrightarrow> pan = EYE_PAN_MIN) \<and>
               (y = 0 \<longrightarrow> tilt = EYE_TILT_MIN) \<and> (y = 480 \<longrightarrow> tilt = EYE_TILT_MAX)"
    by blast
qed


theorem face_look_linear_map_witness:
  "binary64_rounding (fl all_ok) \<and>
   requested_pixel (BodyDict [(''x'', JInt 0), (''y'', JInt 480)]) = Some (0, 480) \<and>
   float_divisible 0 640 \<and> float_divisible 480 480 \<and>
   face_look all_ok (BodyDict [(''x'', JInt 0), (''y'', JInt 480)]) running =
     (Some \<lparr>http = 200, status = ''success'', message = MsgSent, angles = None, expression = None,
            look = Some (110, 100)\<rparr>,
      running\<lparr>trace := [Write Face (''E110 T100'' @ [CHR 0x0A]) True, Read Face True]\<rparr>) \<and>
   servo_angles 0 480 (110, 100) \<and>
   face_to_servo (fl all_ok) 8 240 640 480 = Some (110, 80) \<and>
   face_to_servo (fl all_ok) 999 (- 5) 640 480 = Some (70, 60)"
proof -
  have f: "fl all_ok = (\<lambda>v. v)" by (simp add: all_ok_def)
  have b: "binary64_rounding (fl all_ok)" unfolding f by (rule exact_is_binary64_rounding)
  have q: "requested_pixel (BodyDict [(''x'', JInt 0), (''y'', JInt 480)]) = Some (0, 480)"
    by (simp add: requested_pixel_def get_int_def)
  have d: "float_divisible 0 640" "float_divisible 480 480"
    using pixel_float_divisible[of 0] pixel_float_divisible[of 480] by simp_all
  have s: "volt_send_to_face_arduino all_ok (look_command 110 100) running =
      (True, MsgSent, running\<lparr>trace := [Write Face (''E110 T100'' @ [CHR 0x0A]) True, Read Face True]\<rparr>)"
    by code_simp
  have e: "face_look all_ok (BodyDict [(''x'', JInt 0), (''y'', JInt 480)]) running =
     (Some \<lparr>http = 200, status = ''success'', message = MsgSent, angles = None, expression = None,
            look = Some (110, 100)\<rparr>,
      running\<lparr>trace := [Write Face (''E110 T100'' @ [CHR 0x0A]) True, Read Face True]\<rparr>)"
    by (simp add: face_look_def get_int_def f face_to_servo_exact_values s json_reply_def status_of_def)
  note t = face_look_linear_map[OF b, where b = "BodyDict [(''x'', JInt 0), (''y'', JInt 480)]"
      and s = running, THEN conjunct2, THEN mp, OF e]
  then have a: "servo_angles 0 480 (110, 100)" by (auto simp: q)
  show ?thesis using b q d e a by (simp add: f face_to_servo_exact_values)
qed

text \<open>
  C9. The last part of the claim fails on the Raspberry Pi server when the face link is
  down: a body with neither field is answered 503 if the port cannot be opened, and is
  answered 400 only after the reconnection has written its test line to the face.
\<close>

theorem face_command_counterexample:
  "map_of [(''speed'', JInt 1)] ''eyes'' = None \<and> map_of [(''speed'', JInt 1)] ''mouth'' = None \<and>
   http (fst (pi_set_face no_port (BodyDict [(''speed'', JInt 1)]) idle)) = 503 \<and>
   http (fst (pi_set_face all_ok (BodyDict [(''speed'', JInt 1)]) idle)) = 400 \<and>
   lines_to Face (trace (snd (pi_set_face all_ok (BodyDict [(''speed'', JInt 1)]) idle))) =
     [''E90 M0'' @ [CHR 0x0A]]"
  by code_simp

text \<open>
  C9, amended. For a \<^verbatim>\<open>POST /face\<close> request with integer fields, the command is the
  space-joined sequence of the tokens of the fields present, \<^verbatim>\<open>E<eyes>\<close> then
  \<^verbatim>\<open>M<mouth>\<close> (\<^verbatim>\<open>E85\<close> for eyes 85 alone, \<^verbatim>\<open>M60\<close> for mouth 60 alone), and it is the only
  line written to the face besides the test line of a reconnection; the Raspberry Pi server
  sends it unless its connection check fails (503). A body with neither field is never
  sent: the PC server answers 400 and performs no operation; the Raspberry Pi server does
  so when the face link is open, and otherwise answers 400 or 503 after its one
  reconnection attempt.
\<close>

theorem face_command_present_fields:
  "(face_fields data eyes mouth \<longrightarrow>
      (\<exists>c. face_command data = Some c \<and> strip c = spec_face_command eyes mouth) \<and>
      (case volt_set_face w (BodyDict data) s of
         (r, s') \<Rightarrow> sent_as Face (spec_face_command eyes mouth @ [CHR 0x0A]) s (http r) s') \<and>
      (case pi_set_face w (BodyDict data) s of
         (r, s') \<Rightarrow> sent_as Face (spec_face_command eyes mouth @ [CHR 0x0A]) s (http r) s' \<or>
                    (http r = 503 \<and> \<not> fst (pi_check_connection w Face s)))) \<and>
   (map_of data ''eyes'' = None \<and> map_of data ''mouth'' = None \<longrightarrow>
      http (fst (volt_set_face w (BodyDict data) s)) = 400 \<and>
      snd (volt_set_face w (BodyDict data) s) = s \<and>
      pi_refusal w Face s (pi_set_face w (BodyDict data) s)) \<and>
   spec_face_command (Some 85) None = ''E85'' \<and> spec_face_command None (Some 60) = ''M60''"
proof -
  have a: "spec_face_command (Some 85) None = ''E85''" "spec_face_command None (Some 60) = ''M60''"
    by code_simp+
  have p: "face_fields data eyes mouth \<longrightarrow>
      (\<exists>c. face_command data = Some c \<and> strip c = spec_face_command eyes mouth) \<and>
      (case volt_set_face w (BodyDict data) s of
         (r, s') \<Rightarrow> sent_as Face (spec_face_command eyes mouth @ [CHR 0x0A]) s (http r) s') \<and>
      (case pi_set_face w (BodyDict data) s of
         (r, s') \<Rightarrow> sent_as Face (spec_face_command eyes mouth @ [CHR 0x0A]) s (http r) s' \<or>
                    (http r = 503 \<and> \<not> fst (pi_check_connection w Face s)))"
  proof (intro impI conjI)
    assume f: "face_fields data eyes mouth"
    from face_command_fields[OF f]
    show "\<exists>c. face_command data = Some c \<and> strip c = spec_face_command eyes mouth" by blast
    from f show "case volt_set_face w (BodyDict data) s of
         (r, s') \<Rightarrow> sent_as Face (spec_face_command eyes mouth @ [CHR 0x0A]) s (http r) s'"
      by (rule volt_set_face_sent)
    from f show "case pi_set_face w (BodyDict data) s of
         (r, s') \<Rightarrow> sent_as Face (spec_face_command eyes mouth @ [CHR 0x0A]) s (http r) s' \<or>
                    (http r = 503 \<and> \<not> fst (pi_check_connection w Face s))"
      by (rule pi_set_face_sent)
  qed
  have q: "map_of data ''eyes'' = None \<and> map_of data ''mouth'' = None \<longrightarrow>
      http (fst (volt_set_face w (BodyDict data) s)) = 400 \<and>
      snd (volt_set_face w (BodyDict data) s) = s \<and>
      pi_refusal w Face s (pi_set_face w (BodyDict data) s)"
  proof
    assume "map_of data ''eyes'' = None \<and> map_of data ''mouth'' = None"
    then have r: "face_refused (BodyDict data)" by (simp add: neither_field_refused)
    from volt_set_face_refused[OF r] pi_set_face_refused[OF r]
    show "http (fst (volt_set_face w (BodyDict data) s)) = 400 \<and>
      snd (volt_set_face w (BodyDict data) s) = s \<and>
      pi_refusal w Face s (pi_set_face w (BodyDict data) s)" by simp
  qed
  from p q a show ?thesis by (intro conjI)
qed

theorem face_command_present_fields_witness:
  "face_fields [(''eyes'', JInt 85)] (Some 85) None \<and>
   face_command [(''eyes'', JInt 85)] = Some ''E85 '' \<and>
   new_events running (snd (volt_set_face all_ok (BodyDict [(''eyes'', JInt 85)]) running)) =
     [Write Face (''E85'' @ [CHR 0x0A]) True, Read Face True] \<and>
   new_events running (snd (pi_set_face all_ok (BodyDict [(''eyes'', JInt 85)]) running)) =
     [Write Face (''E85'' @ [CHR 0x0A]) True] \<and>
   sent_as Face (''E85'' @ [CHR 0x0A]) running 200 (snd (pi_set_face all_ok (BodyDict [(''eyes'', JInt 85)]) running)) \<and>
   face_fields [(''mouth'', JInt 60)] None (Some 60) \<and>
   new_events running (snd (volt_set_face all_ok (BodyDict [(''mouth'', JInt 60)]) running)) =
     [Write Face (''M60'' @ [CHR 0x0A]) True, Read Face True] \<and>
   map_of [(''speed'', JInt 1)] ''eyes'' = None \<and> map_of [(''speed'', JInt 1)] ''mouth'' = None \<and>
   http (fst (volt_set_face all_ok (BodyDict [(''speed'', JInt 1)]) idle)) = 400 \<and>
   snd (volt_set_face all_ok (BodyDict [(''speed'', JInt 1)]) idle) = idle"
proof -
  have h: "face_fields [(''eyes'', JInt 85)] (Some 85) None"
    "face_fields [(''mouth'', JInt 60)] None (Some 60)"
    "map_of [(''speed'', JInt 1)] ''eyes'' = None" "map_of [(''speed'', JInt 1)] ''mouth'' = None"
    by code_simp+
  have e: "face_command [(''eyes'', JInt 85)] = Some ''E85 ''"
    "new_events running (snd (volt_set_face all_ok (BodyDict [(''eyes'', JInt 85)]) running)) =
       [Write Face (''E85'' @ [CHR 0x0A]) True, Read Face True]"
    "new_events running (snd (pi_set_face all_ok (BodyDict [(''eyes'', JInt 85)]) running)) =
       [Write Face (''E85'' @ [CHR 0x0A]) True]"
    "new_events running (snd (volt_set_face all_ok (BodyDict [(''mouth'', JInt 60)]) running)) =
       [Write Face (''M60'' @ [CHR 0x0A]) True, Read Face True]"
    "http (fst (pi_set_face all_ok (BodyDict [(''eyes'', JInt 85)]) running)) = 200"
    by code_simp+
  note t1 = face_command_present_fields[where data = "[(''eyes'', JInt 85)]" and eyes = "Some 85"
      and mouth = None and w = all_ok and s = running]
  note t2 = face_command_present_fields[where data = "[(''speed'', JInt 1)]" and eyes = None
      and mouth = None and w = all_ok and s = idle]
  note pi = t1[THEN conjunct1, THEN mp, OF h(1), THEN conjunct2, THEN conjunct2,
      unfolded case_prod_unfold]
  note q = t1[THEN conjunct2, THEN conjunct2, THEN conjunct1]
  have s: "sent_as Face (''E85'' @ [CHR 0x0A]) running 200
       (snd (pi_set_face all_ok (BodyDict [(''eyes'', JInt 85)]) running))"
    using pi[unfolded q] e(5) by simp
  note v = t2[THEN conjunct2, THEN conjunct1, THEN mp, OF conjI[OF h(3) h(4)]]
  show ?thesis using h e s v by simp
qed

text \<open>
  C10. The claim fails when the face link is not open: \<^verbatim>\<open>send_to_face_arduino\<close> then
  reconnects first, and \<^verbatim>\<open>init_face_arduino\<close> writes its test line \<^verbatim>\<open>E90 M0\<close>. A
  \<^verbatim>\<open>POST /face_look\<close> for the pixel (0, 480) on a server whose face link is down thus
  makes two lines reach the face, and the first of them carries an \<^verbatim>\<open>M\<close> token.
\<close>

theorem face_look_line_counterexample:
  "face_arduino idle \<noteq> OpenPort \<and>
   look (the (fst (face_look all_ok (BodyDict [(''x'', JInt 0), (''y'', JInt 480)]) idle))) =
     Some (110, 100) \<and>
   lines_to Face (new_events idle (snd (face_look all_ok (BodyDict [(''x'', JInt 0), (''y'', JInt 480)]) idle))) =
     [''E90 M0'' @ [CHR 0x0A], ''E110 T100'' @ [CHR 0x0A]] \<and>
   CHR ''M'' \<in> set (''E90 M0'' @ [CHR 0x0A])"
proof -
  have s: "volt_send_to_face_arduino all_ok (look_command 110 100) idle =
      (True, MsgSent, idle\<lparr>face_arduino := OpenPort,
         trace := [Connect Face IsOpen, Write Face (''E90 M0'' @ [CHR 0x0A]) True, Read Face True,
                   Write Face (''E110 T100'' @ [CHR 0x0A]) True, Read Face True]\<rparr>)"
    by code_simp
  have f: "fl all_ok = (\<lambda>v. v)" by (simp add: all_ok_def)
  have e: "face_look all_ok (BodyDict [(''x'', JInt 0), (''y'', JInt 480)]) idle =
     (Some \<lparr>http = 200, status = ''success'', message = MsgSent, angles = None, expression = None,
            look = Some (110, 100)\<rparr>,
      idle\<lparr>face_arduino := OpenPort,
         trace := [Connect Face IsOpen, Write Face (''E90 M0'' @ [CHR 0x0A]) True, Read Face True,
                   Write Face (''E110 T100'' @ [CHR 0x0A]) True, Read Face True]\<rparr>)"
    by (simp add: face_look_def get_int_def f face_to_servo_exact_corner s json_reply_def status_of_def)
  show ?thesis unfolding e by (simp add: idle_def new_events_def lines_to_simps)
qed

text \<open>
  C10, amended. Whenever \<^verbatim>\<open>POST /face_look\<close> gives a reply, the reply has code 200 and
  carries angles \<open>pan\<close> and \<open>tilt\<close>, and the command built from them is \<^verbatim>\<open>E<pan> T<tilt>\<close>
  with its line end, a line with a \<^verbatim>\<open>T\<close> token and no \<^verbatim>\<open>M\<close>. With the face link open
  this is the one line written, by the one write performed. With the face link not open
  the server reconnects once: when the reconnection succeeds, its test line \<^verbatim>\<open>E90 M0\<close>
  and then the command are written, and no other line; when it fails the command is not
  written, and nothing but the test line can have been. No line is written to the hand. A
  request that gives no reply (an exception leaves the handler) performs no operation.
\<close>

theorem face_look_line:
  "(case face_look w b s of
      (None, s') \<Rightarrow> s' = s
    | (Some r, s') \<Rightarrow>
        (case look r of
           None \<Rightarrow> False
         | Some (pan, tilt) \<Rightarrow>
             sent_as Face (''E'' @ str_int pan @ '' T'' @ str_int tilt @ [CHR 0x0A]) s (http r) s' \<and>
             look_lines w s (''E'' @ str_int pan @ '' T'' @ str_int tilt @ [CHR 0x0A])
               (lines_to Face (new_events s s')) \<and>
             lines_to Hand (new_events s s') = [])) \<and>
   look_command p t = ''E'' @ str_int p @ '' T'' @ str_int t @ [CHR 0x0A] \<and>
   CHR ''M'' \<notin> set (look_command p t)"
proof -
  have "case face_look w b s of
      (None, s') \<Rightarrow> s' = s
    | (Some r, s') \<Rightarrow>
        (case look r of
           None \<Rightarrow> False
         | Some (pan, tilt) \<Rightarrow>
             sent_as Face (''E'' @ str_int pan @ '' T'' @ str_int tilt @ [CHR 0x0A]) s (http r) s' \<and>
             look_lines w s (''E'' @ str_int pan @ '' T'' @ str_int tilt @ [CHR 0x0A])
               (lines_to Face (new_events s s')) \<and>
             lines_to Hand (new_events s s') = [])"
    using face_look_cases[of w b s]
  proof
    assume "face_look w b s = (None, s)"
    then show ?thesis by simp
  next
    assume "\<exists>pan tilt ok m s'. volt_send_to_face_arduino w (look_command pan tilt) s = (ok, m, s') \<and>
      face_look w b s = (Some ((json_reply 200 (status_of ok) m)\<lparr>look := Some (pan, tilt)\<rparr>), s')"
    then obtain pan tilt ok m s' where
      snd: "volt_send_to_face_arduino w (look_command pan tilt) s = (ok, m, s')" and
      r: "face_look w b s = (Some ((json_reply 200 (status_of ok) m)\<lparr>look := Some (pan, tilt)\<rparr>), s')"
      by blast
    from volt_send_face_sent[OF snd] look_command_nl[of pan tilt]
    have "sent_as Face (look_command pan tilt) s 200 s'" by simp
    moreover note volt_send_face_look_lines[OF snd look_command_nl]
      volt_send_face_no_hand_lines[OF snd]
    ultimately show ?thesis using r by (simp add: json_reply_def look_command_def)
  qed
  moreover have "look_command p t = ''E'' @ str_int p @ '' T'' @ str_int t @ [CHR 0x0A]"
    by (simp add: look_command_def)
  ultimately show ?thesis using look_command_no_M[of p t] by (intro conjI)
qed

theorem face_look_line_witness:
  "face_look all_ok (BodyDict [(''x'', JInt 0), (''y'', JInt 480)]) running =
     (Some \<lparr>http = 200, status = ''success'', message = MsgSent, angles = None, expression = None,
            look = Some (110, 100)\<rparr>,
      running\<lparr>trace := [Write Face (''E110 T100'' @ [CHR 0x0A]) True, Read Face True]\<rparr>) \<and>
   sent_as Face (''E110 T100'' @ [CHR 0x0A]) running 200
     (snd (face_look all_ok (BodyDict [(''x'', JInt 0), (''y'', JInt 480)]) running)) \<and>
   look_lines all_ok running (''E110 T100'' @ [CHR 0x0A]) [''E110 T100'' @ [CHR 0x0A]] \<and>
   face_arduino idle \<noteq> OpenPort \<and> fst (volt_init_arduino all_ok Face idle) \<and>
   look_lines all_ok idle (''E110 T100'' @ [CHR 0x0A])
     (lines_to Face (new_events idle
        (snd (face_look all_ok (BodyDict [(''x'', JInt 0), (''y'', JInt 480)]) idle)))) \<and>
   lines_to Face (new_events idle
        (snd (face_look all_ok (BodyDict [(''x'', JInt 0), (''y'', JInt 480)]) idle))) =
     [''E90 M0'' @ [CHR 0x0A], ''E110 T100'' @ [CHR 0x0A]] \<and>
   \<not> fst (volt_init_arduino no_port Face idle) \<and>
   look_lines no_port idle (''E110 T100'' @ [CHR 0x0A])
     (lines_to Face (new_events idle
        (snd (face_look no_port (BodyDict [(''x'', JInt 0), (''y'', JInt 480)]) idle)))) \<and>
   lines_to Face (new_events idle
        (snd (face_look no_port (BodyDict [(''x'', JInt 0), (''y'', JInt 480)]) idle))) = [] \<and>
   face_look all_ok BodyError running = (None, running)"
proof -
  let ?b = "BodyDict [(''x'', JInt 0), (''y'', JInt 480)]"
  have s: "volt_send_to_face_arduino all_ok (look_command 110 100) running =
      (True, MsgSent, running\<lparr>trace := [Write Face (''E110 T100'' @ [CHR 0x0A]) True, Read Face True]\<rparr>)"
    "str_int 110 = ''110''" "str_int 100 = ''100''"
    "volt_send_to_face_arduino all_ok (look_command 110 100) idle =
      (True, MsgSent, idle\<lparr>face_arduino := OpenPort,
         trace := [Connect Face IsOpen, Write Face (''E90 M0'' @ [CHR 0x0A]) True, Read Face True,
                   Write Face (''E110 T100'' @ [CHR 0x0A]) True, Read Face True]\<rparr>)"
    "volt_send_to_face_arduino no_port (look_command 110 100) idle =
      (False, MsgNotInitialised, idle\<lparr>trace := [Connect Face Raises]\<rparr>)"
    by code_simp+
  have h: "face_arduino idle \<noteq> OpenPort" "fst (volt_init_arduino all_ok Face idle)"
    "\<not> fst (volt_init_arduino no_port Face idle)" "face_arduino running = OpenPort"
    by code_simp+
  have f: "fl all_ok = (\<lambda>v. v)" "fl no_port = (\<lambda>v. v)" by (simp_all add: all_ok_def no_port_def)
  have e: "face_look all_ok ?b running =
     (Some \<lparr>http = 200, status = ''success'', message = MsgSent, angles = None, expression = None,
            look = Some (110, 100)\<rparr>,
      running\<lparr>trace := [Write Face (''E110 T100'' @ [CHR 0x0A]) True, Read Face True]\<rparr>)"
    by (simp add: face_look_def get_int_def f face_to_servo_exact_corner s json_reply_def status_of_def)
  have e1: "face_look all_ok ?b idle =
     (Some \<lparr>http = 200, status = ''success'', message = MsgSent, angles = None, expression = None,
            look = Some (110, 100)\<rparr>,
      idle\<lparr>face_arduino := OpenPort,
         trace := [Connect Face IsOpen, Write Face (''E90 M0'' @ [CHR 0x0A]) True, Read Face True,
                   Write Face (''E110 T100'' @ [CHR 0x0A]) True, Read Face True]\<rparr>)"
    by (simp add: face_look_def get_int_def f face_to_servo_exact_corner s json_reply_def status_of_def)
  have e2: "face_look no_port ?b idle =
     (Some \<lparr>http = 200, status = ''error'', message = MsgNotInitialised, angles = None,
            expression = None, look = Some (110, 100)\<rparr>,
      idle\<lparr>trace := [Connect Face Raises]\<rparr>)"
    by (simp add: face_look_def get_int_def f face_to_servo_exact_corner s json_reply_def status_of_def)
  have n: "face_look all_ok BodyError running = (None, running)" by (simp add: face_look_def)
  note t = face_look_line[where w = all_ok and s = running and p = 0 and t = 0 and b = ?b,
      THEN conjunct1]
  note t1 = face_look_line[where w = all_ok and s = idle and p = 0 and t = 0 and b = ?b,
      THEN conjunct1]
  note t2 = face_look_line[where w = no_port and s = idle and p = 0 and t = 0 and b = ?b,
      THEN conjunct1]
  have a: "sent_as Face (''E110 T100'' @ [CHR 0x0A]) running 200 (snd (face_look all_ok ?b running))"
    "look_lines all_ok running (''E110 T100'' @ [CHR 0x0A]) [''E110 T100'' @ [CHR 0x0A]]"
    using t e s(2,3) by (simp_all add: new_events_def running_def lines_to_simps)
  have a1: "look_lines all_ok idle (''E110 T100'' @ [CHR 0x0A])
     (lines_to Face (new_events idle (snd (face_look all_ok ?b idle))))"
    using t1 e1 s(2,3) by simp
  have a2: "look_lines no_port idle (''E110 T100'' @ [CHR 0x0A])
     (lines_to Face (new_events idle (snd (face_look no_port ?b idle))))"
    using t2 e2 s(2,3) by simp
  have l: "lines_to Face (new_events idle (snd (face_look all_ok ?b idle))) =
     [''E90 M0'' @ [CHR 0x0A], ''E110 T100'' @ [CHR 0x0A]]"
    "lines_to Face (new_events idle (snd (face_look no_port ?b idle))) = []"
    unfolding e1 e2 by (simp_all add: idle_def new_events_def lines_to_simps)
  show ?thesis using e a a1 a2 l h n by simp
qed

end
